theory Spec2Isabelle
  imports Main "HOL-Library.AList"
begin

section \<open>The tool rollback protocol (rollback_portocal/protocol.py)\<close>

text \<open>
  Wall-clock instants (\<^verbatim>\<open>datetime\<close>) are natural numbers; a later instant is a larger
  number. Whatever reads the clock takes the instant as an argument.
\<close>

type_synonym datetime = nat

text \<open>
  \<^verbatim>\<open>CHECKPOINT_TOOL_NAMES\<close>: the tuple of tool names that act as logical checkpoints and
  need no reverse handler.
\<close>

definition CHECKPOINT_TOOL_NAMES :: "string list" where
  "CHECKPOINT_TOOL_NAMES =
     [''save_checkpoint'', ''checkpoint'',
      ''create_checkpoint_tool'', ''list_checkpoints_tool'',
      ''rollback_to_checkpoint_tool'', ''delete_checkpoint_tool'',
      ''get_checkpoint_info_tool'', ''cleanup_auto_checkpoints_tool'']"

text \<open>
  Handlers are Python callables with side effects on the outside world. The world is a
  type parameter \<open>'w\<close> threaded through every call. A forward handler returns the new world
  and either the message of the exception it raised or its result; a reverse handler
  returns the new world and the message of the exception it raised, if any. The arguments
  (\<^verbatim>\<open>Mapping[str, Any]\<close>) and the result (\<^verbatim>\<open>Any\<close>) are type parameters.
\<close>

type_synonym ('a, 'r, 'w) ForwardTool = "'a \<Rightarrow> 'w \<Rightarrow> 'w \<times> (string + 'r)"
type_synonym ('a, 'r, 'w) ReverseTool = "'a \<Rightarrow> 'r \<Rightarrow> 'w \<Rightarrow> 'w \<times> string option"

record ('a, 'r, 'w) ToolSpec =
  name :: string
  forward :: "('a, 'r, 'w) ForwardTool"
  reverse :: "('a, 'r, 'w) ReverseTool option"

datatype error =
    ValueError string
  | IntegrityError string
  | TypeError string
  | OverflowError string
  | OperationalError string

text \<open>\<^verbatim>\<open>ToolSpec.validate\<close>: raises ValueError, or returns nothing.\<close>

definition validate :: "('a, 'r, 'w) ToolSpec \<Rightarrow> error option" where
  "validate spec =
     (if name spec \<notin> set CHECKPOINT_TOOL_NAMES \<and> reverse spec = None
      then Some (ValueError (''Tool '' @ [CHR 0x27] @ name spec @ [CHR 0x27] @
             '' must register a reverse handler unless it is a checkpoint tool.''))
      else None)"

record ('a, 'r) ToolInvocationRecord =
  tool_name :: string
  args :: 'a
  result :: 'r
  success :: bool
  error_message :: "string option"
  timestamp :: datetime

text \<open>
  The dataclass constructor of \<^verbatim>\<open>ToolInvocationRecord\<close>. The default of the field
  \<^verbatim>\<open>timestamp\<close> is the expression \<^verbatim>\<open>datetime.utcnow()\<close> in the class body: Python
  evaluates it once, when the class statement runs at the import of protocol.py. That
  instant is the argument \<open>utcnow_at_import\<close>; the constructor reads no clock.
\<close>

definition new_ToolInvocationRecord ::
  "datetime \<Rightarrow> string \<Rightarrow> 'a \<Rightarrow> 'r \<Rightarrow> bool \<Rightarrow> string option \<Rightarrow> datetime option
     \<Rightarrow> ('a, 'r) ToolInvocationRecord" where
  "new_ToolInvocationRecord utcnow_at_import tn a r ok err ts =
     \<lparr>tool_name = tn, args = a, result = r, success = ok, error_message = err,
      timestamp = (case ts of None \<Rightarrow> utcnow_at_import | Some t \<Rightarrow> t)\<rparr>"

record ReverseInvocationResult =
  rr_tool_name :: string
  reversed_successfully :: bool
  rr_error_message :: "string option"

section \<open>The registry (rollback_portocal/registry.py)\<close>

record ('a, 'r, 'w) ToolRollbackRegistry =
  tools :: "string \<rightharpoonup> ('a, 'r, 'w) ToolSpec"
  track :: "('a, 'r) ToolInvocationRecord list"

definition new_registry :: "('a, 'r, 'w) ToolRollbackRegistry" where
  "new_registry = \<lparr>tools = Map.empty, track = []\<rparr>"

definition register_tool ::
  "('a, 'r, 'w) ToolRollbackRegistry \<Rightarrow> ('a, 'r, 'w) ToolSpec
     \<Rightarrow> error + ('a, 'r, 'w) ToolRollbackRegistry" where
  "register_tool reg spec =
     (case validate spec of
        Some e \<Rightarrow> Inl e
      | None \<Rightarrow> Inr (reg\<lparr>tools := (tools reg)(name spec \<mapsto> spec)\<rparr>))"

definition get_tool ::
  "('a, 'r, 'w) ToolRollbackRegistry \<Rightarrow> string \<Rightarrow> ('a, 'r, 'w) ToolSpec option" where
  "get_tool reg n = tools reg n"

text \<open>
  \<^verbatim>\<open>record_invocation\<close> builds the record without a \<^verbatim>\<open>timestamp\<close> argument and appends
  it. \<open>now\<close> is the wall clock at the call: the source never reads it.
\<close>

definition record_invocation ::
  "datetime \<Rightarrow> datetime \<Rightarrow> ('a, 'r, 'w) ToolRollbackRegistry
     \<Rightarrow> string \<Rightarrow> 'a \<Rightarrow> 'r \<Rightarrow> bool \<Rightarrow> string option
     \<Rightarrow> ('a, 'r, 'w) ToolRollbackRegistry" where
  "record_invocation utcnow_at_import now reg tn a r ok err =
     reg\<lparr>track := track reg @
            [new_ToolInvocationRecord utcnow_at_import tn a r ok err None]\<rparr>"

definition clear_track ::
  "('a, 'r, 'w) ToolRollbackRegistry \<Rightarrow> ('a, 'r, 'w) ToolRollbackRegistry" where
  "clear_track reg = reg\<lparr>track := []\<rparr>"

definition get_track ::
  "('a, 'r, 'w) ToolRollbackRegistry \<Rightarrow> ('a, 'r) ToolInvocationRecord list" where
  "get_track reg = track reg"

text \<open>
  The loop of \<^verbatim>\<open>rollback\<close> over \<^verbatim>\<open>reversed(self._track)\<close>: the second argument is the
  list still to visit, \<open>results\<close> the outcomes collected so far, \<open>w\<close> the world.
\<close>

fun rollback_loop ::
  "(string \<rightharpoonup> ('a, 'r, 'w) ToolSpec) \<Rightarrow> ('a, 'r) ToolInvocationRecord list
     \<Rightarrow> ReverseInvocationResult list \<Rightarrow> 'w \<Rightarrow> ReverseInvocationResult list \<times> 'w" where
  "rollback_loop T [] results w = (results, w)"
| "rollback_loop T (rec # rest) results w =
     (if tool_name rec \<in> set CHECKPOINT_TOOL_NAMES then rollback_loop T rest results w
      else
        (case (case T (tool_name rec) of None \<Rightarrow> None | Some spec \<Rightarrow> reverse spec) of
           None \<Rightarrow>
             rollback_loop T rest
               (results @ [\<lparr>rr_tool_name = tool_name rec, reversed_successfully = False,
                            rr_error_message = Some ''No reverse handler registered''\<rparr>]) w
         | Some rv \<Rightarrow>
             (case rv (args rec) (result rec) w of
                (w', None) \<Rightarrow>
                  rollback_loop T rest
                    (results @ [\<lparr>rr_tool_name = tool_name rec, reversed_successfully = True,
                                 rr_error_message = None\<rparr>]) w'
              | (w', Some e) \<Rightarrow>
                  rollback_loop T rest
                    (results @ [\<lparr>rr_tool_name = tool_name rec, reversed_successfully = False,
                                 rr_error_message = Some e\<rparr>]) w')))"

text \<open>
  \<^verbatim>\<open>rollback\<close> returns the outcomes; the model also returns the registry and the world
  as the call leaves them.
\<close>

definition rollback ::
  "('a, 'r, 'w) ToolRollbackRegistry \<Rightarrow> 'w
     \<Rightarrow> ReverseInvocationResult list \<times> ('a, 'r, 'w) ToolRollbackRegistry \<times> 'w" where
  "rollback reg w =
     (case rollback_loop (tools reg) (rev (track reg)) [] w of
        (results, w') \<Rightarrow> (results, reg, w'))"

subsection \<open>Observing the reverse invocations\<close>

text \<open>
  To speak about which reverse handlers a run invokes, every registered reverse handler
  is wrapped so that it appends its invocation (the name it was looked up under, the
  arguments and the result it was given) to a log carried beside the world. The wrapped
  handler does to the world what the handler did. Forward handlers leave the log alone.
\<close>

type_synonym ('a, 'r) invocation = "string \<times> 'a \<times> 'r"

definition logged ::
  "string \<Rightarrow> ('a, 'r, 'w) ReverseTool \<Rightarrow> ('a, 'r, 'w \<times> ('a, 'r) invocation list) ReverseTool" where
  "logged n rv = (\<lambda>a r (w, log). case rv a r w of (w', e) \<Rightarrow> ((w', log @ [(n, a, r)]), e))"

definition lifted ::
  "('a, 'r, 'w) ForwardTool \<Rightarrow> ('a, 'r, 'w \<times> ('a, 'r) invocation list) ForwardTool" where
  "lifted f = (\<lambda>a (w, log). case f a w of (w', x) \<Rightarrow> ((w', log), x))"

definition instrument_spec ::
  "string \<Rightarrow> ('a, 'r, 'w) ToolSpec \<Rightarrow> ('a, 'r, 'w \<times> ('a, 'r) invocation list) ToolSpec" where
  "instrument_spec n spec =
     \<lparr>name = name spec, forward = lifted (forward spec),
      reverse = map_option (logged n) (reverse spec)\<rparr>"

definition instrument ::
  "('a, 'r, 'w) ToolRollbackRegistry
     \<Rightarrow> ('a, 'r, 'w \<times> ('a, 'r) invocation list) ToolRollbackRegistry" where
  "instrument reg =
     \<lparr>tools = (\<lambda>n. map_option (instrument_spec n) (tools reg n)), track = track reg\<rparr>"

definition invocation_of :: "('a, 'r) ToolInvocationRecord \<Rightarrow> ('a, 'r) invocation" where
  "invocation_of rec = (tool_name rec, args rec, result rec)"

text \<open>
  A record is reversible in a registry when its tool is not a checkpoint tool and the
  registry holds a spec with a reverse handler under the record's tool name.
\<close>

definition reversible ::
  "('a, 'r, 'w) ToolRollbackRegistry \<Rightarrow> ('a, 'r) ToolInvocationRecord \<Rightarrow> bool" where
  "reversible reg rec =
     (tool_name rec \<notin> set CHECKPOINT_TOOL_NAMES \<and>
      (case tools reg (tool_name rec) of
         None \<Rightarrow> False
       | Some spec \<Rightarrow> (case reverse spec of None \<Rightarrow> False | Some rv \<Rightarrow> True)))"

text \<open>
  The undo contract in the specification's words, for comparison with the source:
  \<^verbatim>\<open>rollback_from(index)\<close> invokes the reverse handler with \<^verbatim>\<open>(args, result)\<close> for each
  record at positions \<^verbatim>\<open>[index .. len-1]\<close> in reverse order if \<^verbatim>\<open>success=true\<close>, skipping
  the records of checkpoint tools.
\<close>

definition spec_rollback_from ::
  "nat \<Rightarrow> ('a, 'r) ToolInvocationRecord list \<Rightarrow> ('a, 'r) invocation list" where
  "spec_rollback_from index trk =
     map invocation_of
       (filter (\<lambda>rec. success rec \<and> tool_name rec \<notin> set CHECKPOINT_TOOL_NAMES)
          (rev (drop index trk)))"

text \<open>
  A registry for worked examples: the tool \<^verbatim>\<open>create_file\<close> with a reverse handler that
  does nothing, and a track of one successful and one failed invocation.
\<close>

definition example_spec :: "(string, string, unit) ToolSpec" where
  "example_spec =
     \<lparr>name = ''create_file'', forward = (\<lambda>a w. (w, Inr a)),
      reverse = Some (\<lambda>a r w. (w, None))\<rparr>"

definition example_registry :: "(string, string, unit) ToolRollbackRegistry" where
  "example_registry =
     \<lparr>tools = [''create_file'' \<mapsto> example_spec],
      track =
        [new_ToolInvocationRecord 0 ''create_file'' ''a.txt'' ''a.txt'' True None None,
         new_ToolInvocationRecord 0 ''create_file'' ''b.txt'' [] False (Some ''disk full'') None]\<rparr>"

section \<open>Sessions and checkpoints (src/sessions, src/checkpoints)\<close>

text \<open>
  Session state, conversation messages and checkpoint metadata are dictionaries that the
  repositories write with \<^verbatim>\<open>json.dumps\<close> and read with \<^verbatim>\<open>json.loads\<close>. They are modelled
  as JSON values, on which writing and reading back is the identity; a dictionary is an
  association list in insertion order.
\<close>

datatype json =
    JNull
  | JBool bool
  | JInt int
  | JStr string
  | JList "json list"
  | JDict "(string \<times> json) list"

type_synonym json_dict = "(string \<times> json) list"

text \<open>Python's truth value of an \<^verbatim>\<open>Optional[int]\<close>: None and 0 are false.\<close>

definition truthy :: "int option \<Rightarrow> bool" where
  "truthy i = (case i of None \<Rightarrow> False | Some n \<Rightarrow> n \<noteq> 0)"

record InternalSession =
  id_S :: "int option"
  external_session_id :: int
  agno_session_id :: string
  session_state_S :: json_dict
  conversation_history_S :: "json_dict list"
  created_at_S :: "datetime option"
  is_current :: bool
  checkpoint_count :: int

text \<open>\<^verbatim>\<open>InternalSession.update_state\<close>: \<^verbatim>\<open>dict.update\<close>, key by key in the argument's order.\<close>

definition dict_update :: "json_dict \<Rightarrow> json_dict \<Rightarrow> json_dict" where
  "dict_update d new = foldl (\<lambda>acc (k, v). AList.update k v acc) d new"

definition update_state :: "InternalSession \<Rightarrow> json_dict \<Rightarrow> InternalSession" where
  "update_state s new_state = s\<lparr>session_state_S := dict_update (session_state_S s) new_state\<rparr>"

record Checkpoint =
  id_C :: "int option"
  internal_session_id :: "int option"
  checkpoint_name :: "string option"
  session_state_C :: json_dict
  conversation_history_C :: "json_dict list"
  is_auto :: bool
  created_at_C :: "datetime option"
  metadata :: json_dict

text \<open>
  \<^verbatim>\<open>Checkpoint.from_internal_session\<close>; \<open>now\<close> is \<^verbatim>\<open>datetime.now()\<close>. The field
  \<^verbatim>\<open>internal_session_id\<close> receives \<^verbatim>\<open>internal_session.id\<close>, which is optional.
\<close>

definition from_internal_session ::
  "datetime \<Rightarrow> InternalSession \<Rightarrow> string option \<Rightarrow> bool \<Rightarrow> Checkpoint" where
  "from_internal_session now s cname auto =
     \<lparr>id_C = None,
      internal_session_id = id_S s,
      checkpoint_name = cname,
      session_state_C = session_state_S s,
      conversation_history_C = conversation_history_S s,
      is_auto = auto,
      created_at_C = Some now,
      metadata = [(''agno_session_id'', JStr (agno_session_id s)),
                  (''checkpoint_count'', JInt (checkpoint_count s + 1))]\<rparr>"

record ExternalSession =
  id_E :: "int option"
  user_id :: int
  session_name :: string
  created_at_E :: "datetime option"
  updated_at :: "datetime option"
  is_active :: bool
  internal_session_ids :: "string list"
  current_internal_session_id :: "string option"

text \<open>\<^verbatim>\<open>ExternalSession.add_internal_session\<close>.\<close>

definition add_internal_session_E :: "ExternalSession \<Rightarrow> string \<Rightarrow> ExternalSession" where
  "add_internal_session_E e aid =
     (if aid \<notin> set (internal_session_ids e)
      then e\<lparr>internal_session_ids := internal_session_ids e @ [aid],
             current_internal_session_id := Some aid\<rparr>
      else e)"

section \<open>The store (src/database/repositories)\<close>

text \<open>
  The SQLite tables, as lists of rows in rowid order. A row of \<^verbatim>\<open>internal_sessions\<close> has
  the table's columns. A row of \<^verbatim>\<open>checkpoints\<close> has the columns and, in
  \<^verbatim>\<open>checkpoint_data\<close>, the JSON text of \<^verbatim>\<open>Checkpoint.to_dict()\<close>, kept here as the checkpoint
  \<^verbatim>\<open>Checkpoint.from_dict\<close> reads back from it. A row of \<^verbatim>\<open>external_sessions\<close> is the
  external session its JSON column decodes to. Each \<^verbatim>\<open>AUTOINCREMENT\<close> key has its
  sequence: the largest id handed out so far.
\<close>

record session_row =
  srow_id :: int
  srow_external_session_id :: int
  srow_agno_session_id :: string
  srow_state_data :: json_dict
  srow_conversation_history :: "json_dict list"
  srow_created_at :: datetime
  srow_is_current :: bool
  srow_checkpoint_count :: int

record checkpoint_row =
  row_id :: int
  row_internal_session_id :: int
  row_checkpoint_name :: "string option"
  row_checkpoint_data :: Checkpoint
  row_is_auto :: bool
  row_created_at :: datetime

record database =
  internal_sessions :: "session_row list"
  internal_sessions_seq :: int
  checkpoints :: "checkpoint_row list"
  checkpoints_seq :: int
  external_sessions :: "ExternalSession list"

definition empty_database :: database where
  "empty_database =
     \<lparr>internal_sessions = [], internal_sessions_seq = 0,
      checkpoints = [], checkpoints_seq = 0, external_sessions = []\<rparr>"

text \<open>
  SQLite holds an integer in 64 bits. The \<^verbatim>\<open>sqlite3\<close> module raises OverflowError when a
  Python integer outside that range is bound to a parameter of a statement.
\<close>

definition in_sqlite_range :: "int \<Rightarrow> bool" where
  "in_sqlite_range i = (- (2 ^ 63) \<le> i \<and> i < 2 ^ 63)"

subsection \<open>InternalSessionRepository\<close>

definition row_to_session :: "session_row \<Rightarrow> InternalSession" where
  "row_to_session r =
     \<lparr>id_S = Some (srow_id r),
      external_session_id = srow_external_session_id r,
      agno_session_id = srow_agno_session_id r,
      session_state_S = srow_state_data r,
      conversation_history_S = srow_conversation_history r,
      created_at_S = Some (srow_created_at r),
      is_current = srow_is_current r,
      checkpoint_count = srow_checkpoint_count r\<rparr>"

text \<open>
  \<^verbatim>\<open>_mark_all_not_current\<close>: \<^verbatim>\<open>if exclude_id:\<close> takes the first UPDATE only for an id
  that is neither None nor 0.
\<close>

definition mark_all_not_current :: "database \<Rightarrow> int \<Rightarrow> int option \<Rightarrow> database" where
  "mark_all_not_current db ext exclude_id =
     db\<lparr>internal_sessions :=
          map (\<lambda>r. if srow_external_session_id r = ext \<and>
                       (if truthy exclude_id then Some (srow_id r) \<noteq> exclude_id else True)
                    then r\<lparr>srow_is_current := False\<rparr> else r)
            (internal_sessions db)\<rparr>"

text \<open>
  \<^verbatim>\<open>create\<close>. The demotion of the other sessions is committed on a connection of its
  own before the INSERT; the INSERT fails on a second row with the same
  \<^verbatim>\<open>agno_session_id\<close> (the column is UNIQUE), and the demotion stays.
\<close>

definition session_create ::
  "datetime \<Rightarrow> database \<Rightarrow> InternalSession \<Rightarrow> database \<times> (error + InternalSession)" where
  "session_create now db session =
     (let session1 = (if created_at_S session = None
                      then session\<lparr>created_at_S := Some now\<rparr> else session);
          db1 = (if is_current session1
                 then mark_all_not_current db (external_session_id session1) None else db)
      in if agno_session_id session1 \<in> srow_agno_session_id ` set (internal_sessions db1)
         then (db1, Inl (IntegrityError
                 ''UNIQUE constraint failed: internal_sessions.agno_session_id''))
         else
           (let new_id = internal_sessions_seq db1 + 1;
                row = \<lparr>srow_id = new_id,
                       srow_external_session_id = external_session_id session1,
                       srow_agno_session_id = agno_session_id session1,
                       srow_state_data = session_state_S session1,
                       srow_conversation_history = conversation_history_S session1,
                       srow_created_at = (case created_at_S session1 of
                                            Some t \<Rightarrow> t | None \<Rightarrow> now),
                       srow_is_current = is_current session1,
                       srow_checkpoint_count = checkpoint_count session1\<rparr>
            in (db1\<lparr>internal_sessions := internal_sessions db1 @ [row],
                     internal_sessions_seq := new_id\<rparr>,
                Inr (session1\<lparr>id_S := Some new_id\<rparr>))))"

text \<open>\<^verbatim>\<open>update\<close>: the UPDATE writes four columns of the row with the session's id.\<close>

definition session_update :: "database \<Rightarrow> InternalSession \<Rightarrow> database \<times> bool" where
  "session_update db session =
     (if \<not> truthy (id_S session) then (db, False)
      else
        (let db1 = (if is_current session
                    then mark_all_not_current db (external_session_id session) (id_S session)
                    else db)
         in (db1\<lparr>internal_sessions :=
                   map (\<lambda>r. if Some (srow_id r) = id_S session
                             then r\<lparr>srow_state_data := session_state_S session,
                                    srow_conversation_history := conversation_history_S session,
                                    srow_is_current := is_current session,
                                    srow_checkpoint_count := checkpoint_count session\<rparr>
                             else r)
                     (internal_sessions db1)\<rparr>,
             \<exists>r \<in> set (internal_sessions db1). Some (srow_id r) = id_S session)))"

definition session_get_by_id :: "database \<Rightarrow> int \<Rightarrow> InternalSession option" where
  "session_get_by_id db sid =
     map_option row_to_session (find (\<lambda>r. srow_id r = sid) (internal_sessions db))"

definition get_current_session :: "database \<Rightarrow> int \<Rightarrow> InternalSession option" where
  "get_current_session db ext =
     map_option row_to_session
       (find (\<lambda>r. srow_external_session_id r = ext \<and> srow_is_current r) (internal_sessions db))"

definition set_current_session :: "database \<Rightarrow> int \<Rightarrow> database \<times> bool" where
  "set_current_session db sid =
     (case session_get_by_id db sid of
        None \<Rightarrow> (db, False)
      | Some session \<Rightarrow>
          (let db1 = mark_all_not_current db (external_session_id session) None
           in (db1\<lparr>internal_sessions :=
                     map (\<lambda>r. if srow_id r = sid then r\<lparr>srow_is_current := True\<rparr> else r)
                       (internal_sessions db1)\<rparr>,
               \<exists>r \<in> set (internal_sessions db1). srow_id r = sid)))"

definition session_delete :: "database \<Rightarrow> int \<Rightarrow> database \<times> bool" where
  "session_delete db sid =
     (db\<lparr>internal_sessions := filter (\<lambda>r. srow_id r \<noteq> sid) (internal_sessions db)\<rparr>,
      \<exists>r \<in> set (internal_sessions db). srow_id r = sid)"

text \<open>
  Sequences of repository operations, run from left to right; an operation's return
  value is dropped.
\<close>

datatype session_op =
    Create datetime InternalSession
  | Update InternalSession
  | SetCurrent int
  | Delete int

fun apply_op :: "database \<Rightarrow> session_op \<Rightarrow> database" where
  "apply_op db (Create now s) = fst (session_create now db s)"
| "apply_op db (Update s) = fst (session_update db s)"
| "apply_op db (SetCurrent sid) = fst (set_current_session db sid)"
| "apply_op db (Delete sid) = fst (session_delete db sid)"

definition run_ops :: "database \<Rightarrow> session_op list \<Rightarrow> database" where
  "run_ops db ops = foldl apply_op db ops"

text \<open>The rows of an external session that are marked current, and the invariant.\<close>

definition current_sessions :: "database \<Rightarrow> int \<Rightarrow> session_row list" where
  "current_sessions db ext =
     filter (\<lambda>r. srow_external_session_id r = ext \<and> srow_is_current r) (internal_sessions db)"

definition at_most_one_current :: "database \<Rightarrow> int \<Rightarrow> bool" where
  "at_most_one_current db ext = (length (current_sessions db ext) \<le> 1)"

text \<open>Every session of \<open>ext\<close> other than the one with id \<open>keep\<close> is marked not current.\<close>

definition others_demoted :: "database \<Rightarrow> int \<Rightarrow> int \<Rightarrow> bool" where
  "others_demoted db ext keep =
     list_all (\<lambda>r. \<not> (srow_external_session_id r = ext \<and> srow_id r \<noteq> keep \<and> srow_is_current r))
       (internal_sessions db)"

text \<open>
  What the primary key and its sequence guarantee of \<^verbatim>\<open>internal_sessions\<close>: ids are
  distinct and none is beyond the sequence.
\<close>

definition sessions_keyed :: "database \<Rightarrow> bool" where
  "sessions_keyed db =
     (distinct (map srow_id (internal_sessions db)) \<and>
      list_all (\<lambda>r. srow_id r \<le> internal_sessions_seq db) (internal_sessions db))"

text \<open>
  A session object agrees with the store when the row with its id, if there is one,
  belongs to the external session the object names. \<^verbatim>\<open>update\<close> demotes by the object's
  \<^verbatim>\<open>external_session_id\<close> and never writes that column.
\<close>

definition update_matches_store :: "database \<Rightarrow> InternalSession \<Rightarrow> bool" where
  "update_matches_store db s =
     list_all (\<lambda>r. Some (srow_id r) \<noteq> id_S s \<or>
                    srow_external_session_id r = external_session_id s)
       (internal_sessions db)"

fun ops_match_store :: "database \<Rightarrow> session_op list \<Rightarrow> bool" where
  "ops_match_store db [] = True"
| "ops_match_store db (Update s # ops) =
     (update_matches_store db s \<and> ops_match_store (apply_op db (Update s)) ops)"
| "ops_match_store db (op # ops) = ops_match_store (apply_op db op) ops"

text \<open>Sessions for worked examples.\<close>

definition example_session :: "int \<Rightarrow> string \<Rightarrow> InternalSession" where
  "example_session ext aid =
     \<lparr>id_S = None, external_session_id = ext, agno_session_id = aid,
      session_state_S = [], conversation_history_S = [], created_at_S = None,
      is_current = True, checkpoint_count = 0\<rparr>"

subsection \<open>CheckpointRepository\<close>

definition row_to_checkpoint :: "checkpoint_row \<Rightarrow> Checkpoint" where
  "row_to_checkpoint r = (row_checkpoint_data r)\<lparr>id_C := Some (row_id r)\<rparr>"

text \<open>
  \<^verbatim>\<open>create\<close>. The column \<^verbatim>\<open>internal_session_id\<close> is NOT NULL, so the INSERT of a
  checkpoint without one fails.
\<close>

definition checkpoint_create ::
  "datetime \<Rightarrow> database \<Rightarrow> Checkpoint \<Rightarrow> database \<times> (error + Checkpoint)" where
  "checkpoint_create now db cp =
     (let cp1 = (if created_at_C cp = None then cp\<lparr>created_at_C := Some now\<rparr> else cp)
      in case internal_session_id cp1 of
           None \<Rightarrow> (db, Inl (IntegrityError
                       ''NOT NULL constraint failed: checkpoints.internal_session_id''))
         | Some sid \<Rightarrow>
             (let new_id = checkpoints_seq db + 1;
                  row = \<lparr>row_id = new_id,
                         row_internal_session_id = sid,
                         row_checkpoint_name = checkpoint_name cp1,
                         row_checkpoint_data = cp1,
                         row_is_auto = is_auto cp1,
                         row_created_at = (case created_at_C cp1 of
                                             Some t \<Rightarrow> t | None \<Rightarrow> now)\<rparr>
              in (db\<lparr>checkpoints := checkpoints db @ [row], checkpoints_seq := new_id\<rparr>,
                  Inr (cp1\<lparr>id_C := Some new_id\<rparr>))))"

definition checkpoint_get_by_id :: "database \<Rightarrow> int \<Rightarrow> Checkpoint option" where
  "checkpoint_get_by_id db cid =
     map_option row_to_checkpoint (find (\<lambda>r. row_id r = cid) (checkpoints db))"

text \<open>
  \<^verbatim>\<open>ORDER BY created_at DESC\<close>: newest first. SQL leaves the order of rows with equal
  \<^verbatim>\<open>created_at\<close> open; SQLite returns them in rowid order, which a stable sort of the
  rows gives.
\<close>

definition newest_first :: "checkpoint_row list \<Rightarrow> checkpoint_row list" where
  "newest_first rows = sort_key (\<lambda>r. - int (row_created_at r)) rows"

definition get_by_internal_session :: "database \<Rightarrow> int \<Rightarrow> bool \<Rightarrow> Checkpoint list" where
  "get_by_internal_session db sid auto_only =
     map row_to_checkpoint
       (newest_first
          (filter (\<lambda>r. row_internal_session_id r = sid \<and>
                        (if auto_only then row_is_auto r else True))
             (checkpoints db)))"

definition checkpoint_delete :: "database \<Rightarrow> int \<Rightarrow> database \<times> bool" where
  "checkpoint_delete db cid =
     (db\<lparr>checkpoints := filter (\<lambda>r. row_id r \<noteq> cid) (checkpoints db)\<rparr>,
      \<exists>r \<in> set (checkpoints db). row_id r = cid)"

text \<open>\<^verbatim>\<open>LIMIT ?\<close>: a negative bound is no bound.\<close>

definition sql_limit :: "int \<Rightarrow> 'a list \<Rightarrow> 'a list" where
  "sql_limit n xs = (if n < 0 then xs else take (nat n) xs)"

text \<open>The automatic checkpoints of a session, newest first.\<close>

definition auto_rows :: "database \<Rightarrow> int \<Rightarrow> checkpoint_row list" where
  "auto_rows db sid =
     newest_first
       (filter (\<lambda>r. row_internal_session_id r = sid \<and> row_is_auto r) (checkpoints db))"

text \<open>
  \<^verbatim>\<open>delete_auto_checkpoints\<close> returns the number of rows deleted. The SELECT binds two
  parameters, the session id and \<^verbatim>\<open>keep_latest\<close>; the DELETE binds the session id and
  one parameter for each id kept. SQLite refuses a statement with more parameters than
  its limit \<open>max_vars\<close> (\<^verbatim>\<open>SQLITE_MAX_VARIABLE_NUMBER\<close>: 999 before SQLite 3.32, 32766
  since), and \<^verbatim>\<open>sqlite3\<close> refuses to bind an integer outside 64 bits; the exception leaves
  the method before anything was written, so the table is as it was.
\<close>

definition delete_auto_checkpoints ::
  "nat \<Rightarrow> database \<Rightarrow> int \<Rightarrow> int \<Rightarrow> database \<times> (error + nat)" where
  "delete_auto_checkpoints max_vars db sid keep_latest =
     (if max_vars < 2 then (db, Inl (OperationalError ''too many SQL variables''))
      else if \<not> (in_sqlite_range sid \<and> in_sqlite_range keep_latest)
      then (db, Inl (OverflowError ''Python int too large to convert to SQLite INTEGER''))
      else
        (let keep_ids = map row_id (sql_limit keep_latest (auto_rows db sid));
             doomed = (if keep_ids \<noteq> []
                       then (\<lambda>r. row_internal_session_id r = sid \<and> row_is_auto r \<and>
                                 row_id r \<notin> set keep_ids)
                       else (\<lambda>r. row_internal_session_id r = sid \<and> row_is_auto r))
         in if keep_ids \<noteq> [] \<and> max_vars < 1 + length keep_ids
            then (db, Inl (OperationalError ''too many SQL variables''))
            else (db\<lparr>checkpoints := filter (\<lambda>r. \<not> doomed r) (checkpoints db)\<rparr>,
                  Inr (length (filter doomed (checkpoints db))))))"

text \<open>What the primary key guarantees of \<^verbatim>\<open>checkpoints\<close>.\<close>

definition checkpoints_keyed :: "database \<Rightarrow> bool" where
  "checkpoints_keyed db =
     (distinct (map row_id (checkpoints db)) \<and>
      list_all (\<lambda>r. row_id r \<le> checkpoints_seq db) (checkpoints db))"

text \<open>
  A store for worked examples: session 1 owns three automatic and three manual
  checkpoints, created in this order at the instants 10 to 60.
\<close>

definition example_checkpoint :: "int \<Rightarrow> string \<Rightarrow> bool \<Rightarrow> datetime \<Rightarrow> Checkpoint" where
  "example_checkpoint sid cname auto t =
     \<lparr>id_C = None, internal_session_id = Some sid, checkpoint_name = Some cname,
      session_state_C = [(''topic'', JStr cname)], conversation_history_C = [],
      is_auto = auto, created_at_C = Some t, metadata = []\<rparr>"

definition example_store :: database where
  "example_store =
     foldl (\<lambda>db cp. fst (checkpoint_create 0 db cp)) empty_database
       [example_checkpoint 1 ''After write_file'' True 10,
        example_checkpoint 1 ''Alpha'' False 20,
        example_checkpoint 1 ''After search'' True 30,
        example_checkpoint 1 ''After write_file'' True 40,
        example_checkpoint 1 ''ALPHA'' False 50,
        example_checkpoint 1 ''Beta'' False 60]"

text \<open>
  A store with many automatic checkpoints: session 1 owns \<open>n\<close> of them, created at the
  instants 1 to \<open>n\<close>.
\<close>

definition many_auto_store :: "nat \<Rightarrow> database" where
  "many_auto_store n =
     foldl (\<lambda>db t. fst (checkpoint_create t db
                          (example_checkpoint 1 ''After write_file'' True t)))
       empty_database [1..<Suc n]"

subsection \<open>ExternalSessionRepository\<close>

definition external_get_by_id :: "database \<Rightarrow> int \<Rightarrow> ExternalSession option" where
  "external_get_by_id db eid = find (\<lambda>e. id_E e = Some eid) (external_sessions db)"

text \<open>\<^verbatim>\<open>update\<close> stamps \<^verbatim>\<open>updated_at\<close> and rewrites the row with the session's id.\<close>

definition external_update :: "datetime \<Rightarrow> database \<Rightarrow> ExternalSession \<Rightarrow> database \<times> bool" where
  "external_update now db e =
     (if \<not> truthy (id_E e) then (db, False)
      else (db\<lparr>external_sessions :=
                 map (\<lambda>r. if id_E r = id_E e then e\<lparr>updated_at := Some now\<rparr> else r)
                   (external_sessions db)\<rparr>,
            \<exists>r \<in> set (external_sessions db). id_E r = id_E e))"

definition add_internal_session :: "datetime \<Rightarrow> database \<Rightarrow> int \<Rightarrow> string \<Rightarrow> database \<times> bool" where
  "add_internal_session now db eid aid =
     (case external_get_by_id db eid of
        None \<Rightarrow> (db, False)
      | Some e \<Rightarrow> external_update now db (add_internal_session_E e aid))"

section \<open>The agent (src/agents/rollback_agent.py)\<close>

text \<open>
  A Python string is a list of characters, and a character of the model is a code point
  below 256 (Latin-1). The two built-in functions the rollback tool applies to its
  argument, as CPython 3.11 computes them on such strings:

  \<^verbatim>\<open>int(s)\<close> strips whitespace on both sides (the six ASCII whitespace characters, the next
  line character U+0085 and the no-break space U+00A0), allows one sign, reads ASCII digits
  that single underscores may separate, and refuses a string with more than 4300 digits
  (the default of \<^verbatim>\<open>sys.int_max_str_digits\<close>). The result is None where \<^verbatim>\<open>int\<close> raises
  ValueError.

  \<^verbatim>\<open>s.lower()\<close> moves the letters A to Z and the Latin-1 capitals U+00C0 to U+00DE (the
  multiplication sign U+00D7 apart) up by 32 and leaves every other character.
\<close>

definition is_space :: "char \<Rightarrow> bool" where
  "is_space c = (c \<in> set [CHR '' '', CHR 0x09, CHR 0x0A, CHR 0x0B, CHR 0x0C, CHR 0x0D,
                           CHR 0x85, CHR 0xA0])"

definition strip :: "string \<Rightarrow> string" where
  "strip s = rev (dropWhile is_space (rev (dropWhile is_space s)))"

definition digit_of :: "char \<Rightarrow> nat option" where
  "digit_of c = map_of (zip ''0123456789'' [0, 1, 2, 3, 4, 5, 6, 7, 8, 9]) c"

text \<open>The digits after the first: \<open>acc\<close> is the number read so far.\<close>

fun py_digits :: "string \<Rightarrow> nat \<Rightarrow> nat option" where
  "py_digits [] acc = Some acc"
| "py_digits [c] acc = (case digit_of c of None \<Rightarrow> None | Some v \<Rightarrow> Some (10 * acc + v))"
| "py_digits (c # d # ds) acc =
     (if c = CHR ''_''
      then (case digit_of d of None \<Rightarrow> None | Some v \<Rightarrow> py_digits ds (10 * acc + v))
      else (case digit_of c of None \<Rightarrow> None | Some v \<Rightarrow> py_digits (d # ds) (10 * acc + v)))"

definition py_unsigned :: "string \<Rightarrow> nat option" where
  "py_unsigned s =
     (case s of
        [] \<Rightarrow> None
      | c # cs \<Rightarrow>
          (case digit_of c of
             None \<Rightarrow> None
           | Some v \<Rightarrow>
               if 4300 < length (filter (\<lambda>d. digit_of d \<noteq> None) s) then None
               else py_digits cs v))"

definition py_int_of_str :: "string \<Rightarrow> int option" where
  "py_int_of_str s =
     (case strip s of
        [] \<Rightarrow> None
      | c # cs \<Rightarrow>
          if c = CHR ''-'' then map_option (\<lambda>n. - int n) (py_unsigned cs)
          else if c = CHR ''+'' then map_option int (py_unsigned cs)
          else map_option int (py_unsigned (c # cs)))"

definition lower_char :: "char \<Rightarrow> char" where
  "lower_char c =
     (case map_of
             (zip (''ABCDEFGHIJKLMNOPQRSTUVWXYZ'' @
                   [CHR 0xC0, CHR 0xC1, CHR 0xC2, CHR 0xC3, CHR 0xC4, CHR 0xC5,
                    CHR 0xC6, CHR 0xC7, CHR 0xC8, CHR 0xC9, CHR 0xCA, CHR 0xCB,
                    CHR 0xCC, CHR 0xCD, CHR 0xCE, CHR 0xCF, CHR 0xD0, CHR 0xD1,
                    CHR 0xD2, CHR 0xD3, CHR 0xD4, CHR 0xD5, CHR 0xD6, CHR 0xD8,
                    CHR 0xD9, CHR 0xDA, CHR 0xDB, CHR 0xDC, CHR 0xDD, CHR 0xDE])
                  (''abcdefghijklmnopqrstuvwxyz'' @
                   [CHR 0xE0, CHR 0xE1, CHR 0xE2, CHR 0xE3, CHR 0xE4, CHR 0xE5,
                    CHR 0xE6, CHR 0xE7, CHR 0xE8, CHR 0xE9, CHR 0xEA, CHR 0xEB,
                    CHR 0xEC, CHR 0xED, CHR 0xEE, CHR 0xEF, CHR 0xF0, CHR 0xF1,
                    CHR 0xF2, CHR 0xF3, CHR 0xF4, CHR 0xF5, CHR 0xF6, CHR 0xF8,
                    CHR 0xF9, CHR 0xFA, CHR 0xFB, CHR 0xFC, CHR 0xFD, CHR 0xFE])) c of
        Some l \<Rightarrow> l
      | None \<Rightarrow> c)"

definition lower :: "string \<Rightarrow> string" where
  "lower s = map lower_char s"

text \<open>
  The agent, once constructed: the fields of \<^verbatim>\<open>RollbackAgent\<close> the checkpoint tools
  read and write. \<^verbatim>\<open>session_state\<close> is the attribute of the underlying Agno agent (None
  until Agno sets it); \<open>state_shared\<close> says that \<^verbatim>\<open>internal_session.session_state\<close> is
  the same dictionary object, as it is after \<^verbatim>\<open>_create_internal_session\<close> took
  \<^verbatim>\<open>self.session_state or {}\<close> from a non-empty dictionary. \<open>has_checkpoint_repo\<close> and
  \<open>has_internal_session_repo\<close> say whether the repositories were given.
\<close>

record RollbackAgent =
  agent_external_session_id :: int
  agent_agno_session_id :: string
  session_state :: "json_dict option"
  state_shared :: bool
  auto_checkpoint :: bool
  has_internal_session_repo :: bool
  has_checkpoint_repo :: bool
  internal_session :: InternalSession
  tool_was_called :: bool
  last_tool_called :: "string option"
  restored_from_checkpoint :: bool
  restored_history :: "json_dict list"

text \<open>\<^verbatim>\<open>_save_internal_session\<close>.\<close>

definition save_internal_session :: "database \<Rightarrow> RollbackAgent \<Rightarrow> database" where
  "save_internal_session db agent =
     (if has_internal_session_repo agent \<and> truthy (id_S (internal_session agent))
      then fst (session_update db (internal_session agent)) else db)"

text \<open>
  \<^verbatim>\<open>_create_auto_checkpoint\<close> and \<^verbatim>\<open>create_checkpoint_tool\<close>. With the session's id set,
  the INSERT of the checkpoint cannot fail. \<open>fmt\<close> is \<^verbatim>\<open>strftime\<close> with the format of the
  default name.
\<close>

definition create_auto_checkpoint ::
  "datetime \<Rightarrow> database \<Rightarrow> RollbackAgent \<Rightarrow> string \<Rightarrow> database \<times> RollbackAgent" where
  "create_auto_checkpoint now db agent cname =
     (if has_checkpoint_repo agent \<and> truthy (id_S (internal_session agent))
      then (fst (checkpoint_create now db
                   (from_internal_session now (internal_session agent) (Some cname) True)),
            agent\<lparr>internal_session := (internal_session agent)
                     \<lparr>checkpoint_count := checkpoint_count (internal_session agent) + 1\<rparr>\<rparr>)
      else (db, agent))"

datatype create_reply =
    CheckpointCreated string "int option"
  | CreateFailed

definition create_checkpoint_tool ::
  "(datetime \<Rightarrow> string) \<Rightarrow> datetime \<Rightarrow> database \<Rightarrow> RollbackAgent \<Rightarrow> string option
     \<Rightarrow> create_reply \<times> database \<times> RollbackAgent" where
  "create_checkpoint_tool fmt now db agent name_arg =
     (let cname = (case name_arg of
                     None \<Rightarrow> ''Checkpoint at '' @ fmt now
                   | Some n \<Rightarrow> if n = [] then ''Checkpoint at '' @ fmt now else n)
      in if has_checkpoint_repo agent \<and> truthy (id_S (internal_session agent))
         then
           (case checkpoint_create now db
                   (from_internal_session now (internal_session agent) (Some cname) False) of
              (db1, saved) \<Rightarrow>
                (let agent1 = agent\<lparr>internal_session := (internal_session agent)
                       \<lparr>checkpoint_count := checkpoint_count (internal_session agent) + 1\<rparr>\<rparr>
                 in (case saved of
                       Inr cp \<Rightarrow> CheckpointCreated cname (id_C cp)
                     | Inl e \<Rightarrow> CreateFailed,
                     save_internal_session db1 agent1, agent1)))
         else (CreateFailed, db, agent))"

subsection \<open>The rollback tool\<close>

text \<open>
  The argument \<^verbatim>\<open>checkpoint_id_or_name\<close> is an integer or a string. The lookup of
  \<^verbatim>\<open>rollback_to_checkpoint_tool\<close>: \<^verbatim>\<open>int(...)\<close> first, and the id it gives is looked up
  in the whole table; only when \<^verbatim>\<open>int\<close> raises ValueError is the name compared,
  lower-cased, with the lower-cased names of the checkpoints of the current internal
  session. The two built-in functions are the parameters \<open>to_int\<close> (None where \<^verbatim>\<open>int\<close>
  raises ValueError) and \<open>to_lower\<close>, so that what is proved of the lookup holds whatever
  strings they accept; \<open>py_int_of_str\<close> and \<open>lower\<close> above are the instances used in the
  worked examples. An id outside SQLite's 64 bits makes the repository raise
  OverflowError, which the tool does not catch.
\<close>

datatype tool_arg = ArgInt int | ArgStr string

definition name_matches :: "(string \<Rightarrow> string) \<Rightarrow> string \<Rightarrow> Checkpoint \<Rightarrow> bool" where
  "name_matches to_lower query cp =
     (case checkpoint_name cp of
        None \<Rightarrow> False
      | Some n \<Rightarrow> n \<noteq> [] \<and> to_lower n = to_lower query)"

text \<open>\<^verbatim>\<open>checkpoint_repo.get_by_id\<close>, with the exception of the binding.\<close>

definition get_by_id_bound :: "database \<Rightarrow> int \<Rightarrow> error + Checkpoint option" where
  "get_by_id_bound db i =
     (if in_sqlite_range i then Inr (checkpoint_get_by_id db i)
      else Inl (OverflowError ''Python int too large to convert to SQLite INTEGER''))"

definition find_checkpoint ::
  "(string \<Rightarrow> int option) \<Rightarrow> (string \<Rightarrow> string) \<Rightarrow> database \<Rightarrow> RollbackAgent \<Rightarrow> tool_arg
     \<Rightarrow> error + Checkpoint option" where
  "find_checkpoint to_int to_lower db agent a =
     (case a of
        ArgInt i \<Rightarrow> get_by_id_bound db i
      | ArgStr s \<Rightarrow>
          (case to_int s of
             Some i \<Rightarrow> get_by_id_bound db i
           | None \<Rightarrow>
               (case id_S (internal_session agent) of
                  None \<Rightarrow> Inr None
                | Some sid \<Rightarrow>
                    if sid = 0 then Inr None
                    else if \<not> in_sqlite_range sid
                    then Inl (OverflowError
                                ''Python int too large to convert to SQLite INTEGER'')
                    else Inr (find (name_matches to_lower s)
                                (get_by_internal_session db sid False)))))"

text \<open>
  What the tool's call can touch: the agent, the store, and a tool registry with its
  track. The three return strings of the tool are the three replies.
\<close>

record ('a, 'r, 'w) system =
  sys_agent :: RollbackAgent
  sys_db :: database
  sys_registry :: "('a, 'r, 'w) ToolRollbackRegistry"

datatype tool_reply =
    Unavailable
  | NotFound
  | RollbackRequested "int option" "string option"

definition json_of_id :: "int option \<Rightarrow> json" where
  "json_of_id i = (case i of None \<Rightarrow> JNull | Some n \<Rightarrow> JInt n)"

definition request_rollback :: "json_dict \<Rightarrow> int option \<Rightarrow> json_dict" where
  "request_rollback st cid =
     AList.update ''rollback_checkpoint_id'' (json_of_id cid)
       (AList.update ''rollback_requested'' (JBool True) st)"

definition rollback_to_checkpoint_tool ::
  "(string \<Rightarrow> int option) \<Rightarrow> (string \<Rightarrow> string) \<Rightarrow> ('a, 'r, 'w) system \<Rightarrow> tool_arg
     \<Rightarrow> (error + tool_reply) \<times> ('a, 'r, 'w) system" where
  "rollback_to_checkpoint_tool to_int to_lower sys a =
     (let agent = sys_agent sys
      in if \<not> has_checkpoint_repo agent then (Inr Unavailable, sys)
         else
           (case find_checkpoint to_int to_lower (sys_db sys) agent a of
              Inl e \<Rightarrow> (Inl e, sys)
            | Inr None \<Rightarrow> (Inr NotFound, sys)
            | Inr (Some cp) \<Rightarrow>
                (case session_state agent of
                   None \<Rightarrow>
                     (Inl (TypeError ''NoneType object does not support item assignment''), sys)
                 | Some st \<Rightarrow>
                     (Inr (RollbackRequested (id_C cp) (checkpoint_name cp)),
                      sys\<lparr>sys_agent := agent
                            \<lparr>session_state := Some (request_rollback st (id_C cp)),
                             internal_session :=
                               (if state_shared agent
                                then (internal_session agent)
                                       \<lparr>session_state_S := request_rollback st (id_C cp)\<rparr>
                                else internal_session agent)\<rparr>\<rparr>))))"

text \<open>
  The name lookup in the specification's words, for comparison with the source: a
  case-insensitive substring match on the manual checkpoints of the current internal
  session, the first match newest first.
\<close>

fun is_substring :: "string \<Rightarrow> string \<Rightarrow> bool" where
  "is_substring q [] = (q = [])"
| "is_substring q (c # cs) = (take (length q) (c # cs) = q \<or> is_substring q cs)"

definition spec_find_by_name ::
  "(string \<Rightarrow> string) \<Rightarrow> database \<Rightarrow> int \<Rightarrow> string \<Rightarrow> Checkpoint option" where
  "spec_find_by_name to_lower db sid query =
     find (\<lambda>cp. case checkpoint_name cp of
                  None \<Rightarrow> False
                | Some n \<Rightarrow> is_substring (to_lower query) (to_lower n))
       (filter (\<lambda>cp. \<not> is_auto cp) (get_by_internal_session db sid False))"

definition example_agent :: RollbackAgent where
  "example_agent =
     \<lparr>agent_external_session_id = 1, agent_agno_session_id = ''agno_a'',
      session_state = Some [(''topic'', JStr ''cats'')], state_shared = False,
      auto_checkpoint = True, has_internal_session_repo = True, has_checkpoint_repo = True,
      internal_session = (example_session 1 ''agno_a'')\<lparr>id_S := Some 1\<rparr>,
      tool_was_called = False, last_tool_called = None,
      restored_from_checkpoint = False, restored_history = []\<rparr>"

subsection \<open>Forking from a checkpoint\<close>

text \<open>
  \<^verbatim>\<open>_create_internal_session\<close>: the session starts from \<^verbatim>\<open>self.session_state or {}\<close>, is
  stamped with \<^verbatim>\<open>datetime.now()\<close>, and is saved when the repository is there.
\<close>

definition create_internal_session ::
  "datetime \<Rightarrow> database \<Rightarrow> bool \<Rightarrow> int \<Rightarrow> string \<Rightarrow> json_dict option
     \<Rightarrow> database \<times> (error + InternalSession)" where
  "create_internal_session now db has_repo ext aid st =
     (let s = \<lparr>id_S = None, external_session_id = ext, agno_session_id = aid,
               session_state_S = (case st of None \<Rightarrow> [] | Some d \<Rightarrow> d),
               conversation_history_S = [], created_at_S = Some now,
               is_current = True, checkpoint_count = 0\<rparr>
      in if has_repo then session_create now db s else (db, Inr s))"

text \<open>
  The guard of the copy loop of \<^verbatim>\<open>from_checkpoint\<close>:
  \<^verbatim>\<open>cp.created_at and checkpoint.created_at and cp.created_at <= checkpoint.created_at\<close>.
\<close>

definition created_not_after :: "Checkpoint \<Rightarrow> Checkpoint \<Rightarrow> bool" where
  "created_not_after cp target =
     (case created_at_C cp of
        None \<Rightarrow> False
      | Some a \<Rightarrow> (case created_at_C target of None \<Rightarrow> False | Some b \<Rightarrow> a \<le> b))"

text \<open>
  The copy loop over \<^verbatim>\<open>original_checkpoints\<close>, the list fetched before the loop; an
  exception of \<^verbatim>\<open>checkpoint_repo.create\<close> ends it.
\<close>

fun copy_checkpoints ::
  "datetime \<Rightarrow> database \<Rightarrow> Checkpoint \<Rightarrow> int \<Rightarrow> Checkpoint list \<Rightarrow> database \<times> error option" where
  "copy_checkpoints now db target new_sid [] = (db, None)"
| "copy_checkpoints now db target new_sid (cp # cps) =
     (if created_not_after cp target
      then
        (case checkpoint_create now db
                \<lparr>id_C = None,
                 internal_session_id = Some new_sid,
                 checkpoint_name = checkpoint_name cp,
                 session_state_C = session_state_C cp,
                 conversation_history_C = conversation_history_C cp,
                 is_auto = is_auto cp,
                 created_at_C = created_at_C cp,
                 metadata = metadata cp\<rparr> of
           (db1, Inl e) \<Rightarrow> (db1, Some e)
         | (db1, Inr saved) \<Rightarrow> copy_checkpoints now db1 target new_sid cps)
      else copy_checkpoints now db target new_sid cps)"

text \<open>
  \<^verbatim>\<open>RollbackAgent.from_checkpoint\<close>. \<open>now\<close> and \<open>now_reg\<close> are the clock when the session
  is created and when the external session is updated, \<open>aid\<close> the fresh Agno session id,
  \<open>has_isr\<close> whether an internal session repository was passed, \<open>kw_state\<close> the keyword
  argument \<^verbatim>\<open>session_state\<close> if the caller gave one. The checkpoint repository is used
  unguarded by the first statement, so it is there. The id in the message of the
  ValueError is left out.
\<close>

definition from_checkpoint ::
  "datetime \<Rightarrow> datetime \<Rightarrow> string \<Rightarrow> bool \<Rightarrow> database \<Rightarrow> int \<Rightarrow> int \<Rightarrow> json_dict option
     \<Rightarrow> database \<times> (error + RollbackAgent)" where
  "from_checkpoint now now_reg aid has_isr db checkpoint_id ext kw_state =
     (case checkpoint_get_by_id db checkpoint_id of
        None \<Rightarrow> (db, Inl (ValueError ''Checkpoint not found''))
      | Some checkpoint \<Rightarrow>
          (let st = (case kw_state of None \<Rightarrow> session_state_C checkpoint | Some d \<Rightarrow> d)
           in case create_internal_session now db has_isr ext aid (Some st) of
                (db1, Inl e) \<Rightarrow> (db1, Inl e)
              | (db1, Inr created) \<Rightarrow>
                  (let db2 = fst (add_internal_session now_reg db1 ext aid);
                       s = created\<lparr>session_state_S := session_state_C checkpoint,
                                  conversation_history_S := conversation_history_C checkpoint\<rparr>;
                       agent = \<lparr>agent_external_session_id = ext,
                                agent_agno_session_id = aid,
                                session_state = Some st,
                                state_shared = False,
                                auto_checkpoint = True,
                                has_internal_session_repo = has_isr,
                                has_checkpoint_repo = True,
                                internal_session = s,
                                tool_was_called = False,
                                last_tool_called = None,
                                restored_from_checkpoint = True,
                                restored_history = conversation_history_C checkpoint\<rparr>
                   in case (case id_S s of
                              None \<Rightarrow> (db2, None)
                            | Some new_sid \<Rightarrow>
                                if new_sid = 0 then (db2, None)
                                else copy_checkpoints now db2 checkpoint new_sid
                                       (case internal_session_id checkpoint of
                                          None \<Rightarrow> []
                                        | Some src \<Rightarrow> get_by_internal_session db2 src False)) of
                        (db3, Some e) \<Rightarrow> (db3, Inl e)
                      | (db3, None) \<Rightarrow> (save_internal_session db3 agent, Inr agent))))"

text \<open>
  A copy of a checkpoint for another internal session: the same attributes, the new
  owner, and no id of its own yet.
\<close>

definition copy_for :: "int \<Rightarrow> Checkpoint \<Rightarrow> Checkpoint" where
  "copy_for new_sid cp = cp\<lparr>id_C := None, internal_session_id := Some new_sid\<rparr>"

text \<open>
  What the two \<^verbatim>\<open>create\<close> methods guarantee of the store: keys are distinct and within
  their sequences, which start at 0; the JSON of a checkpoint row carries the row's
  \<^verbatim>\<open>created_at\<close> and \<^verbatim>\<open>internal_session_id\<close>; and every checkpoint belongs to an internal
  session id that has been handed out.
\<close>

definition store_ok :: "database \<Rightarrow> bool" where
  "store_ok db =
     (sessions_keyed db \<and> checkpoints_keyed db \<and> 0 \<le> internal_sessions_seq db \<and>
      list_all (\<lambda>r. created_at_C (row_checkpoint_data r) = Some (row_created_at r) \<and>
                     internal_session_id (row_checkpoint_data r) = Some (row_internal_session_id r) \<and>
                     row_internal_session_id r \<le> internal_sessions_seq db)
        (checkpoints db))"

text \<open>
  A store for a worked fork: internal session 1 of external session 1, with the manual
  checkpoints A, B and C made at the instants 10, 20 and 30.
\<close>

definition example_fork_store :: database where
  "example_fork_store =
     foldl (\<lambda>db cp. fst (checkpoint_create 0 db cp))
       (fst (session_create 5 empty_database (example_session 1 ''agno_a'')))
       [example_checkpoint 1 ''A'' False 10,
        example_checkpoint 1 ''B'' False 20,
        example_checkpoint 1 ''C'' False 30]"

section \<open>Properties of the registry\<close>

lemma reverse_lookup_instrument:
  "(case tools (instrument reg) n of None \<Rightarrow> None | Some spec \<Rightarrow> reverse spec) =
   map_option (logged n)
     (case tools reg n of None \<Rightarrow> None | Some spec \<Rightarrow> reverse spec)"
  by (simp add: instrument_def instrument_spec_def split: option.splits)

lemma reversible_iff:
  "reversible reg x \<longleftrightarrow>
     tool_name x \<notin> set CHECKPOINT_TOOL_NAMES \<and>
     (case tools reg (tool_name x) of None \<Rightarrow> None | Some spec \<Rightarrow> reverse spec) \<noteq> None"
  by (simp add: reversible_def split: option.splits)

text \<open>
  The wrapped registry runs as the registry does, and its log grows by the invocations
  of the reversible records among those visited, in the order of the visit.
\<close>

lemma rollback_loop_instrument:
  "rollback_loop (tools (instrument reg)) xs res (w, log) =
     (case rollback_loop (tools reg) xs res w of
        (results, w') \<Rightarrow> (results, (w', log @ map invocation_of (filter (reversible reg) xs))))"
proof (induction xs arbitrary: res w log)
  case Nil
  show ?case by simp
next
  case (Cons x xs)
  show ?case
  proof (cases "tool_name x \<in> set CHECKPOINT_TOOL_NAMES")
    case True
    then show ?thesis by (simp add: Cons.IH reversible_iff)
  next
    case False
    show ?thesis
    proof (cases "case tools reg (tool_name x) of None \<Rightarrow> None | Some spec \<Rightarrow> reverse spec")
      case None
      with False show ?thesis
        by (simp add: Cons.IH reversible_iff reverse_lookup_instrument)
    next
      case (Some rv)
      obtain w' e where step: "rv (args x) (result x) w = (w', e)"
        by (cases "rv (args x) (result x) w")
      from False Some step show ?thesis
        by (cases e)
           (simp_all add: Cons.IH reversible_iff reverse_lookup_instrument logged_def
              invocation_of_def)
    qed
  qed
qed

lemma example_registry_log:
  "snd (snd (snd (rollback (instrument example_registry) ((), [])))) =
     [(''create_file'', ''b.txt'', []), (''create_file'', ''a.txt'', ''a.txt'')]"
  by (simp add: rollback_def example_registry_def instrument_def instrument_spec_def
        example_spec_def logged_def new_ToolInvocationRecord_def CHECKPOINT_TOOL_NAMES_def)

text \<open>
  C1 (as amended). \<^verbatim>\<open>rollback\<close> takes no starting index. It visits the whole track in
  reverse order and invokes the reverse handler with \<^verbatim>\<open>(args, result)\<close> for exactly the
  records whose tool is not in the reserved checkpoint-tool set and has a reverse handler
  registered, whatever their success flag; records of checkpoint tools are never
  reversed. In the theorem: run on the wrapped registry from an empty log, \<^verbatim>\<open>rollback\<close>
  returns the outcomes and the world of the plain run, and the log holds the invocations
  of the reversible records of the reversed track, in that order.
\<close>

theorem rollback_invokes_reversible_records_in_reverse:
  "rollback (instrument reg) (w, []) =
     (case rollback reg w of
        (results, reg', w') \<Rightarrow>
          (results, instrument reg',
           (w', map invocation_of (filter (reversible reg) (rev (get_track reg))))))"
  unfolding rollback_def get_track_def
  by (simp add: rollback_loop_instrument split: prod.splits) (simp add: instrument_def)

theorem rollback_invokes_reversible_records_in_reverse_witness:
  "snd (snd (snd (rollback (instrument example_registry) ((), [])))) =
     map invocation_of (rev (get_track example_registry))"
  using rollback_invokes_reversible_records_in_reverse [of example_registry "()"]
  by (simp add: rollback_def example_registry_def example_spec_def get_track_def
        reversible_def new_ToolInvocationRecord_def CHECKPOINT_TOOL_NAMES_def
        split: prod.splits)

text \<open>
  C1 as stated fails: on the example track the failed invocation of \<^verbatim>\<open>b.txt\<close> is reversed
  too, and first, while the specification's contract from index 0 reverses only the
  successful invocation of \<^verbatim>\<open>a.txt\<close>.
\<close>

theorem rollback_reverses_failed_record_counterexample:
  "snd (snd (snd (rollback (instrument example_registry) ((), [])))) =
     [(''create_file'', ''b.txt'', []), (''create_file'', ''a.txt'', ''a.txt'')] \<and>
   spec_rollback_from 0 (get_track example_registry) =
     [(''create_file'', ''a.txt'', ''a.txt'')]"
  by (simp add: example_registry_log)
     (simp add: spec_rollback_from_def get_track_def example_registry_def
        new_ToolInvocationRecord_def CHECKPOINT_TOOL_NAMES_def invocation_of_def)

text \<open>
  C2 (as amended). \<^verbatim>\<open>rollback\<close> leaves the registry as it found it: the track keeps every
  record and its length (the track is the input of \<^verbatim>\<open>redo\<close>; only \<^verbatim>\<open>clear_track\<close>
  empties it).
\<close>

theorem rollback_keeps_track:
  "fst (snd (rollback reg w)) = reg \<and>
   get_track (fst (snd (rollback reg w))) = get_track reg \<and>
   length (get_track (fst (snd (rollback reg w)))) = length (get_track reg)"
  by (simp add: rollback_def split: prod.splits)

theorem rollback_keeps_track_witness:
  "length (get_track (fst (snd (rollback example_registry ())))) =
   length (get_track example_registry)"
  using rollback_keeps_track [of example_registry "()"] by simp

text \<open>
  C2 as stated fails: after the rollback of the whole example track (from index 0) the
  track still has its two records, not none.
\<close>

theorem rollback_truncates_track_counterexample:
  "length (get_track (fst (snd (rollback example_registry ())))) = 2"
  by (simp add: rollback_def get_track_def example_registry_def split: prod.splits)

text \<open>
  C6. \<^verbatim>\<open>register_tool\<close> fails (with ValueError, the invalid-registration error) if and
  only if the spec has no reverse handler and its name is not in the reserved
  checkpoint-tool set. On success the spec is recorded under its name, every other name
  and the track are as before, and a later successful registration under the same name
  replaces it.
\<close>

theorem register_tool_contract:
  "((\<exists>msg. register_tool reg spec = Inl (ValueError msg)) \<longleftrightarrow>
      (reverse spec = None \<and> name spec \<notin> set CHECKPOINT_TOOL_NAMES)) \<and>
   ((\<exists>reg'. register_tool reg spec = Inr reg') \<longleftrightarrow>
      \<not> (reverse spec = None \<and> name spec \<notin> set CHECKPOINT_TOOL_NAMES)) \<and>
   (\<forall>reg'. register_tool reg spec = Inr reg' \<longrightarrow>
      get_tool reg' (name spec) = Some spec \<and>
      (\<forall>n. n \<noteq> name spec \<longrightarrow> get_tool reg' n = get_tool reg n) \<and>
      get_track reg' = get_track reg \<and>
      (\<forall>spec2 reg2. name spec2 = name spec \<longrightarrow> register_tool reg' spec2 = Inr reg2 \<longrightarrow>
         get_tool reg2 (name spec) = Some spec2))"
  by (auto simp add: register_tool_def validate_def get_tool_def get_track_def
        split: option.splits if_splits)

theorem register_tool_contract_witness:
  "(\<exists>msg. register_tool example_registry (example_spec\<lparr>reverse := None\<rparr>)
            = Inl (ValueError msg)) \<and>
   (\<exists>reg'. register_tool example_registry example_spec = Inr reg' \<and>
           get_tool reg' ''create_file'' = Some example_spec)"
proof -
  have bad: "reverse (example_spec\<lparr>reverse := None\<rparr>) = None \<and>
             name (example_spec\<lparr>reverse := None\<rparr>) \<notin> set CHECKPOINT_TOOL_NAMES"
    by (simp add: example_spec_def CHECKPOINT_TOOL_NAMES_def)
  have good: "\<not> (reverse example_spec = None \<and>
                  name example_spec \<notin> set CHECKPOINT_TOOL_NAMES)"
    by (simp add: example_spec_def)
  have nm: "name example_spec = ''create_file''"
    by (simp add: example_spec_def)
  from register_tool_contract [of example_registry "example_spec\<lparr>reverse := None\<rparr>"] bad
  have 1: "\<exists>msg. register_tool example_registry (example_spec\<lparr>reverse := None\<rparr>)
                   = Inl (ValueError msg)"
    by blast
  from register_tool_contract [of example_registry example_spec] good nm
  have 2: "\<exists>reg'. register_tool example_registry example_spec = Inr reg' \<and>
                  get_tool reg' ''create_file'' = Some example_spec"
    by metis
  from 1 2 show ?thesis by blast
qed

text \<open>
  C10. Any two records that \<^verbatim>\<open>record_invocation\<close> appends (under one import of the module,
  at whatever wall-clock instants \<open>now1\<close> and \<open>now2\<close>, to whatever registries) carry the same
  timestamp: the instant the class was defined, not the instant of the call.
\<close>

theorem record_invocation_timestamps_equal:
  "timestamp (last (get_track (record_invocation d now1 reg1 tn1 a1 r1 ok1 e1))) = d \<and>
   timestamp (last (get_track (record_invocation d now1 reg1 tn1 a1 r1 ok1 e1))) =
   timestamp (last (get_track (record_invocation d now2 reg2 tn2 a2 r2 ok2 e2)))"
  by (simp add: record_invocation_def new_ToolInvocationRecord_def get_track_def)

theorem record_invocation_timestamps_equal_witness:
  "timestamp (last (get_track
      (record_invocation 100 250 example_registry ''create_file'' ''c.txt'' ''c.txt'' True None)))
   = timestamp (last (get_track
      (record_invocation 100 990 (clear_track example_registry) ''create_file'' ''d.txt'' []
         False (Some ''denied''))))"
  using record_invocation_timestamps_equal
    [of 100 250 example_registry "''create_file''" "''c.txt''" "''c.txt''" True None
        990 "clear_track example_registry" "''create_file''" "''d.txt''" "[]" False
        "Some ''denied''"]
  by simp

section \<open>Properties of the internal session repository\<close>

lemma keyed_length_le_1:
  "distinct (map f ys) \<Longrightarrow> (length ys \<le> 1) = (\<forall>x\<in>set ys. \<forall>y\<in>set ys. f x = f y)"
proof (cases ys)
  case Nil
  then show ?thesis by simp
next
  case (Cons a zs)
  assume d: "distinct (map f ys)"
  show ?thesis
  proof (cases zs)
    case Nil
    with Cons show ?thesis by simp
  next
    case (Cons b ws)
    with \<open>ys = a # zs\<close> d have "f a \<noteq> f b" by auto
    with Cons \<open>ys = a # zs\<close> show ?thesis by auto
  qed
qed

lemma at_most_one_current_iff:
  assumes "distinct (map srow_id (internal_sessions db))"
  shows "at_most_one_current db ext =
     (\<forall>r\<in>set (internal_sessions db). \<forall>r'\<in>set (internal_sessions db).
        srow_external_session_id r = ext \<and> srow_is_current r \<and>
        srow_external_session_id r' = ext \<and> srow_is_current r' \<longrightarrow> srow_id r = srow_id r')"
proof -
  have "distinct (map srow_id (current_sessions db ext))"
    unfolding current_sessions_def using assms by (rule distinct_map_filter)
  from keyed_length_le_1 [OF this] show ?thesis
    unfolding at_most_one_current_def by (auto simp add: current_sessions_def)
qed

lemmas row_if = if_distrib [of srow_id] if_distrib [of srow_is_current]
  if_distrib [of srow_external_session_id]

lemma mark_ids [simp]:
  "map srow_id (internal_sessions (mark_all_not_current db ext ex)) = map srow_id (internal_sessions db)"
  by (simp add: mark_all_not_current_def comp_def row_if)

lemma mark_seq [simp]:
  "internal_sessions_seq (mark_all_not_current db ext ex) = internal_sessions_seq db"
  by (simp add: mark_all_not_current_def)

lemma create_ids:
  "map srow_id (internal_sessions (fst (session_create now db s))) = map srow_id (internal_sessions db)
   \<and> internal_sessions_seq (fst (session_create now db s)) = internal_sessions_seq db
   \<or> map srow_id (internal_sessions (fst (session_create now db s))) =
       map srow_id (internal_sessions db) @ [internal_sessions_seq db + 1]
   \<and> internal_sessions_seq (fst (session_create now db s)) = internal_sessions_seq db + 1"
  by (simp add: session_create_def Let_def)

lemma update_ids [simp]:
  "map srow_id (internal_sessions (fst (session_update db s))) = map srow_id (internal_sessions db)"
  by (simp add: session_update_def Let_def comp_def row_if mark_all_not_current_def)

lemma update_seq [simp]:
  "internal_sessions_seq (fst (session_update db s)) = internal_sessions_seq db"
  by (simp add: session_update_def Let_def)

lemma set_current_ids [simp]:
  "map srow_id (internal_sessions (fst (set_current_session db sid))) = map srow_id (internal_sessions db)"
  by (simp add: set_current_session_def Let_def comp_def row_if mark_all_not_current_def split: option.splits)

lemma set_current_seq [simp]:
  "internal_sessions_seq (fst (set_current_session db sid)) = internal_sessions_seq db"
  by (simp add: set_current_session_def Let_def split: option.splits)

lemma keyed_iff:
  "sessions_keyed db \<longleftrightarrow> distinct (map srow_id (internal_sessions db)) \<and>
     list_all (\<lambda>i. i \<le> internal_sessions_seq db) (map srow_id (internal_sessions db))"
  by (simp add: sessions_keyed_def list_all_iff)

lemma keyed_create: "sessions_keyed db \<Longrightarrow> sessions_keyed (fst (session_create now db s))"
  unfolding keyed_iff using create_ids [of now db s]
  by (elim disjE conjE) (simp only:, auto simp add: list_all_iff)

lemma keyed_delete: "sessions_keyed db \<Longrightarrow> sessions_keyed (fst (session_delete db sid))"
  by (auto simp add: sessions_keyed_def session_delete_def distinct_map_filter list_all_iff)

lemma keyed_apply_op: "sessions_keyed db \<Longrightarrow> sessions_keyed (apply_op db op)"
  by (cases op) (simp_all add: keyed_create keyed_delete, simp_all only: keyed_iff update_ids update_seq set_current_ids set_current_seq)


lemma amo_set:
  "sessions_keyed db \<Longrightarrow> at_most_one_current db ext =
     (\<forall>r\<in>set (internal_sessions db). \<forall>r'\<in>set (internal_sessions db).
        srow_external_session_id r = ext \<and> srow_is_current r \<and>
        srow_external_session_id r' = ext \<and> srow_is_current r' \<longrightarrow> srow_id r = srow_id r')"
  by (rule at_most_one_current_iff) (simp add: sessions_keyed_def)

lemma amo_map_rows:
  assumes k': "sessions_keyed db'"
    and rows: "internal_sessions db' = map g (internal_sessions db)"
    and H: "\<And>r r'. r \<in> set (internal_sessions db) \<Longrightarrow> r' \<in> set (internal_sessions db) \<Longrightarrow>
         srow_external_session_id (g r) = e \<Longrightarrow> srow_external_session_id (g r') = e \<Longrightarrow>
         srow_is_current (g r) \<Longrightarrow> srow_is_current (g r') \<Longrightarrow> srow_id (g r) = srow_id (g r')"
  shows "at_most_one_current db' e"
  unfolding amo_set [OF k'] rows
proof (intro ballI impI)
  fix x y
  assume x: "x \<in> set (map g (internal_sessions db))" and y: "y \<in> set (map g (internal_sessions db))"
    and c: "srow_external_session_id x = e \<and> srow_is_current x \<and>
            srow_external_session_id y = e \<and> srow_is_current y"
  from x obtain r where r: "r \<in> set (internal_sessions db)" "x = g r" by auto
  from y obtain r' where r': "r' \<in> set (internal_sessions db)" "y = g r'" by auto
  from H [OF r(1) r'(1)] c r(2) r'(2) show "srow_id x = srow_id y" by simp
qed

lemma amoD:
  assumes "sessions_keyed db" "at_most_one_current db e"
    "r \<in> set (internal_sessions db)" "r' \<in> set (internal_sessions db)"
    "srow_external_session_id r = e" "srow_external_session_id r' = e"
    "srow_is_current r" "srow_is_current r'"
  shows "srow_id r = srow_id r'"
  using assms(2-) unfolding amo_set [OF assms(1)] by blast


lemma keyed_mark: "sessions_keyed db \<Longrightarrow> sessions_keyed (mark_all_not_current db ext ex)"
  unfolding keyed_iff by simp

lemma amo_mark:
  assumes k: "sessions_keyed db" and a: "\<forall>ext. at_most_one_current db ext"
  shows "at_most_one_current (mark_all_not_current db e0 ex) e"
proof -
  define g where "g = (\<lambda>r::session_row. if srow_external_session_id r = e0 \<and>
                       (if truthy ex then Some (srow_id r) \<noteq> ex else True)
                    then r\<lparr>srow_is_current := False\<rparr> else r)"
  have id_g: "\<And>r. srow_id (g r) = srow_id r" by (simp add: g_def)
  have ext_g: "\<And>r. srow_external_session_id (g r) = srow_external_session_id r" by (simp add: g_def)
  have cur_g: "\<And>r. srow_is_current (g r) \<Longrightarrow> srow_is_current r" by (simp add: g_def split: if_splits)
  have rows: "internal_sessions (mark_all_not_current db e0 ex) = map g (internal_sessions db)"
    by (simp add: mark_all_not_current_def g_def)
  show ?thesis
  proof (rule amo_map_rows [OF keyed_mark [OF k] rows])
    fix r r'
    assume "r \<in> set (internal_sessions db)" "r' \<in> set (internal_sessions db)"
      "srow_external_session_id (g r) = e" "srow_external_session_id (g r') = e"
      "srow_is_current (g r)" "srow_is_current (g r')"
    then show "srow_id (g r) = srow_id (g r')"
      using amoD [OF k a [rule_format, of e], of r r'] by (simp add: id_g ext_g cur_g)
  qed
qed

lemma mark_row_cases:
  assumes "r \<in> set (internal_sessions (mark_all_not_current db e ex))"
  shows "\<exists>r0 \<in> set (internal_sessions db). srow_id r = srow_id r0 \<and>
           srow_external_session_id r = srow_external_session_id r0 \<and>
           (srow_is_current r \<longrightarrow> srow_is_current r0 \<and>
              \<not> (srow_external_session_id r0 = e \<and>
                   (if truthy ex then Some (srow_id r0) \<noteq> ex else True)))"
  using assms by (auto simp add: mark_all_not_current_def split: if_splits)

lemma keyed_unique:
  assumes "sessions_keyed db" "r \<in> set (internal_sessions db)" "r' \<in> set (internal_sessions db)"
    "srow_id r = srow_id r'"
  shows "r = r'"
proof -
  from assms(1) have "inj_on srow_id (set (internal_sessions db))"
    by (simp add: sessions_keyed_def distinct_map)
  with assms(2-) show ?thesis by (auto dest: inj_onD)
qed

lemma matches_mark:
  assumes "update_matches_store db s"
  shows "update_matches_store (mark_all_not_current db e ex) s"
  unfolding update_matches_store_def list_all_iff
proof
  fix r assume "r \<in> set (internal_sessions (mark_all_not_current db e ex))"
  from mark_row_cases [OF this] obtain r0 where "r0 \<in> set (internal_sessions db)"
    "srow_id r = srow_id r0" "srow_external_session_id r = srow_external_session_id r0" by blast
  with assms show "Some (srow_id r) \<noteq> id_S s \<or> srow_external_session_id r = external_session_id s"
    unfolding update_matches_store_def list_all_iff by auto
qed

lemma amo_update_rows:
  assumes k: "sessions_keyed db1" and a: "\<forall>ext. at_most_one_current db1 ext"
    and m: "update_matches_store db1 s"
    and d: "is_current s \<Longrightarrow> \<forall>r \<in> set (internal_sessions db1).
              srow_external_session_id r = external_session_id s \<and> Some (srow_id r) \<noteq> id_S s
              \<longrightarrow> \<not> srow_is_current r"
  shows "at_most_one_current
     (db1\<lparr>internal_sessions :=
           map (\<lambda>r. if Some (srow_id r) = id_S s
                     then r\<lparr>srow_state_data := session_state_S s,
                            srow_conversation_history := conversation_history_S s,
                            srow_is_current := is_current s,
                            srow_checkpoint_count := checkpoint_count s\<rparr>
                     else r)
             (internal_sessions db1)\<rparr>) e"
proof -
  define h where "h = (\<lambda>r::session_row. if Some (srow_id r) = id_S s
                     then r\<lparr>srow_state_data := session_state_S s,
                            srow_conversation_history := conversation_history_S s,
                            srow_is_current := is_current s,
                            srow_checkpoint_count := checkpoint_count s\<rparr>
                     else r)"
  have id_h: "\<And>r. srow_id (h r) = srow_id r" by (simp add: h_def)
  have ext_h: "\<And>r. srow_external_session_id (h r) = srow_external_session_id r" by (simp add: h_def)
  have cur_h: "\<And>r. srow_is_current (h r) =
      (if Some (srow_id r) = id_S s then is_current s else srow_is_current r)" by (simp add: h_def)
  let ?db' = "db1\<lparr>internal_sessions := map h (internal_sessions db1)\<rparr>"
  have k': "sessions_keyed ?db'" using k unfolding keyed_iff by (simp add: comp_def id_h)
  have "at_most_one_current ?db' e"
  proof (rule amo_map_rows [OF k'])
    show "internal_sessions ?db' = map h (internal_sessions db1)" by simp
  next
    fix r r'
    assume r: "r \<in> set (internal_sessions db1)" and r': "r' \<in> set (internal_sessions db1)"
      and e: "srow_external_session_id (h r) = e" "srow_external_session_id (h r') = e"
      and c: "srow_is_current (h r)" "srow_is_current (h r')"
    from m r have mr: "Some (srow_id r) = id_S s \<Longrightarrow> srow_external_session_id r = external_session_id s"
      unfolding update_matches_store_def list_all_iff by auto
    from m r' have mr': "Some (srow_id r') = id_S s \<Longrightarrow> srow_external_session_id r' = external_session_id s"
      unfolding update_matches_store_def list_all_iff by auto
    show "srow_id (h r) = srow_id (h r')"
    proof (cases "Some (srow_id r) = id_S s")
      case True
      show ?thesis
      proof (cases "Some (srow_id r') = id_S s")
        case True
        with \<open>Some (srow_id r) = id_S s\<close> have "Some (srow_id r) = Some (srow_id r')" by simp
        then show ?thesis by (simp add: id_h)
      next
        case False
        from True c(1) have cs: "is_current s" by (simp add: cur_h)
        from False c(2) have "srow_is_current r'" by (simp add: cur_h)
        moreover from e True mr have "srow_external_session_id r' = external_session_id s"
          by (simp add: ext_h)
        ultimately show ?thesis using d [OF cs] r' False by blast
      qed
    next
      case False
      show ?thesis
      proof (cases "Some (srow_id r') = id_S s")
        case True
        from True c(2) have cs: "is_current s" by (simp add: cur_h)
        from False c(1) have "srow_is_current r" by (simp add: cur_h)
        moreover from e True mr' have "srow_external_session_id r = external_session_id s"
          by (simp add: ext_h)
        ultimately show ?thesis using d [OF cs] r False by blast
      next
        case F2: False
        from False F2 c have "srow_is_current r" "srow_is_current r'" by (simp_all add: cur_h)
        with amoD [OF k a [rule_format, of e] r r'] e show ?thesis by (simp add: id_h ext_h)
      qed
    qed
  qed
  then show ?thesis by (simp add: h_def)
qed

lemma mark_demotes:
  assumes "r \<in> set (internal_sessions (mark_all_not_current db e ex))"
    "srow_external_session_id r = e" "if truthy ex then Some (srow_id r) \<noteq> ex else True"
  shows "\<not> srow_is_current r"
  using mark_row_cases [OF assms(1)] assms(2,3) by (auto split: if_splits)

lemma amo_update:
  assumes k: "sessions_keyed db" and a: "\<forall>ext. at_most_one_current db ext"
    and m: "update_matches_store db s"
  shows "at_most_one_current (fst (session_update db s)) e"
proof (cases "truthy (id_S s)")
  case False
  with a show ?thesis by (simp add: session_update_def)
next
  case True
  show ?thesis
  proof (cases "is_current s")
    case c: True
    let ?db1 = "mark_all_not_current db (external_session_id s) (id_S s)"
    have "at_most_one_current
     (?db1\<lparr>internal_sessions :=
           map (\<lambda>r. if Some (srow_id r) = id_S s
                     then r\<lparr>srow_state_data := session_state_S s,
                            srow_conversation_history := conversation_history_S s,
                            srow_is_current := is_current s,
                            srow_checkpoint_count := checkpoint_count s\<rparr>
                     else r)
             (internal_sessions ?db1)\<rparr>) e"
    proof (rule amo_update_rows [OF keyed_mark [OF k] _ matches_mark [OF m]])
      show "\<forall>ext. at_most_one_current ?db1 ext" using amo_mark [OF k a] by blast
    next
      show "\<forall>r\<in>set (internal_sessions ?db1).
       srow_external_session_id r = external_session_id s \<and> Some (srow_id r) \<noteq> id_S s \<longrightarrow>
       \<not> srow_is_current r"
        using mark_demotes [of _ db "external_session_id s" "id_S s"] True by auto
    qed
    with True c show ?thesis by (simp add: session_update_def Let_def)
  next
    case c: False
    have "at_most_one_current
     (db\<lparr>internal_sessions :=
           map (\<lambda>r. if Some (srow_id r) = id_S s
                     then r\<lparr>srow_state_data := session_state_S s,
                            srow_conversation_history := conversation_history_S s,
                            srow_is_current := is_current s,
                            srow_checkpoint_count := checkpoint_count s\<rparr>
                     else r)
             (internal_sessions db)\<rparr>) e"
      by (rule amo_update_rows [OF k a m]) (simp add: c)
    with True c show ?thesis by (simp add: session_update_def Let_def)
  qed
qed

lemma amo_set_current:
  assumes k: "sessions_keyed db" and a: "\<forall>ext. at_most_one_current db ext"
  shows "at_most_one_current (fst (set_current_session db sid)) e"
proof (cases "find (\<lambda>r. srow_id r = sid) (internal_sessions db)")
  case None
  with a show ?thesis by (simp add: set_current_session_def session_get_by_id_def)
next
  case (Some r0)
  then have r0: "r0 \<in> set (internal_sessions db)" "srow_id r0 = sid"
    by (auto simp add: find_Some_iff)
  let ?x = "(row_to_session r0)\<lparr>is_current := True\<rparr>"
  have fst_eq: "fst (set_current_session db sid) =
      (mark_all_not_current db (srow_external_session_id r0) None)
        \<lparr>internal_sessions :=
           map (\<lambda>r. if srow_id r = sid then r\<lparr>srow_is_current := True\<rparr> else r)
            (internal_sessions (mark_all_not_current db (srow_external_session_id r0) None))\<rparr>"
    using Some by (simp add: set_current_session_def session_get_by_id_def Let_def row_to_session_def)
  let ?db1 = "mark_all_not_current db (srow_external_session_id r0) None"
  define h where "h = (\<lambda>r::session_row. if srow_id r = sid then r\<lparr>srow_is_current := True\<rparr> else r)"
  have id_h: "\<And>r. srow_id (h r) = srow_id r" by (simp add: h_def)
  have ext_h: "\<And>r. srow_external_session_id (h r) = srow_external_session_id r" by (simp add: h_def)
  have cur_h: "\<And>r. srow_is_current (h r) = (if srow_id r = sid then True else srow_is_current r)"
    by (simp add: h_def)
  have k1: "sessions_keyed ?db1" by (rule keyed_mark [OF k])
  have a1: "\<And>e. at_most_one_current ?db1 e" by (rule amo_mark [OF k a])
  have own: "\<And>r. r \<in> set (internal_sessions ?db1) \<Longrightarrow> srow_id r = sid \<Longrightarrow>
      srow_external_session_id r = srow_external_session_id r0"
  proof -
    fix r assume "r \<in> set (internal_sessions ?db1)" "srow_id r = sid"
    from mark_row_cases [OF this(1)] obtain r1 where r1: "r1 \<in> set (internal_sessions db)"
      "srow_id r = srow_id r1" "srow_external_session_id r = srow_external_session_id r1" by blast
    with \<open>srow_id r = sid\<close> r0 have "r1 = r0" using keyed_unique [OF k r1(1) r0(1)] by simp
    with r1 show "srow_external_session_id r = srow_external_session_id r0" by simp
  qed
  have dem: "\<And>r. r \<in> set (internal_sessions ?db1) \<Longrightarrow>
      srow_external_session_id r = srow_external_session_id r0 \<Longrightarrow> \<not> srow_is_current r"
    using mark_demotes [of _ db "srow_external_session_id r0" None] by (simp add: truthy_def)
  let ?db' = "?db1\<lparr>internal_sessions := map h (internal_sessions ?db1)\<rparr>"
  have k': "sessions_keyed ?db'" using k1 unfolding keyed_iff by (simp add: comp_def id_h)
  have "at_most_one_current ?db' e"
  proof (rule amo_map_rows [OF k'])
    show "internal_sessions ?db' = map h (internal_sessions ?db1)" by simp
  next
    fix r r'
    assume r: "r \<in> set (internal_sessions ?db1)" and r': "r' \<in> set (internal_sessions ?db1)"
      and e: "srow_external_session_id (h r) = e" "srow_external_session_id (h r') = e"
      and c: "srow_is_current (h r)" "srow_is_current (h r')"
    show "srow_id (h r) = srow_id (h r')"
    proof (cases "srow_id r = sid")
      case True
      show ?thesis
      proof (cases "srow_id r' = sid")
        case True
        with \<open>srow_id r = sid\<close> show ?thesis by (simp add: id_h)
      next
        case False
        with c(2) have "srow_is_current r'" by (simp add: cur_h)
        moreover from e own [OF r True] have "srow_external_session_id r' = srow_external_session_id r0"
          by (simp add: ext_h)
        ultimately show ?thesis using dem [OF r'] by blast
      qed
    next
      case False
      show ?thesis
      proof (cases "srow_id r' = sid")
        case True
        from False c(1) have "srow_is_current r" by (simp add: cur_h)
        moreover from e own [OF r' True] have "srow_external_session_id r = srow_external_session_id r0"
          by (simp add: ext_h)
        ultimately show ?thesis using dem [OF r] by blast
      next
        case F2: False
        from False F2 c have "srow_is_current r" "srow_is_current r'" by (simp_all add: cur_h)
        with amoD [OF k1 a1 [of e] r r'] e show ?thesis by (simp add: id_h ext_h)
      qed
    qed
  qed
  then show ?thesis unfolding fst_eq by (simp add: h_def)
qed

lemma amo_delete:
  assumes k: "sessions_keyed db" and a: "\<forall>ext. at_most_one_current db ext"
  shows "at_most_one_current (fst (session_delete db sid)) e"
proof -
  have "length (filter P (filter Q xs)) \<le> length (filter P xs)" for P Q and xs :: "session_row list"
    by (induction xs) auto
  from this [of "\<lambda>r. srow_external_session_id r = e \<and> srow_is_current r"
      "\<lambda>r. srow_id r \<noteq> sid" "internal_sessions db"] a [rule_format, of e]
  show ?thesis
    by (simp add: at_most_one_current_def current_sessions_def session_delete_def)
qed

lemma amo_create:
  assumes k: "sessions_keyed db" and a: "\<forall>ext. at_most_one_current db ext"
  shows "at_most_one_current (fst (session_create now db s)) e"
proof -
  define db1 where "db1 = (if is_current s
        then mark_all_not_current db (external_session_id s) None else db)"
  have k1: "sessions_keyed db1" using k by (simp add: db1_def keyed_mark)
  have a1: "at_most_one_current db1 e" using a amo_mark [OF k a] by (simp add: db1_def)
  have dem: "\<And>r. is_current s \<Longrightarrow> r \<in> set (internal_sessions db1) \<Longrightarrow>
      srow_external_session_id r = external_session_id s \<Longrightarrow> \<not> srow_is_current r"
    using mark_demotes [of _ db "external_session_id s" None] by (simp add: truthy_def db1_def)
  define row where "row =
      \<lparr>srow_id = internal_sessions_seq db1 + 1,
       srow_external_session_id = external_session_id s,
       srow_agno_session_id = agno_session_id s,
       srow_state_data = session_state_S s,
       srow_conversation_history = conversation_history_S s,
       srow_created_at = (case created_at_S s of Some t \<Rightarrow> t | None \<Rightarrow> now),
       srow_is_current = is_current s,
       srow_checkpoint_count = checkpoint_count s\<rparr>"
  have rw: "srow_external_session_id row = external_session_id s"
    "srow_is_current row = is_current s" by (simp_all add: row_def)
  have cases: "fst (session_create now db s) = db1 \<or>
     fst (session_create now db s) =
        db1\<lparr>internal_sessions := internal_sessions db1 @ [row],
             internal_sessions_seq := internal_sessions_seq db1 + 1\<rparr>"
    by (cases "created_at_S s") (simp_all add: session_create_def Let_def db1_def row_def)
  then show ?thesis
  proof
    assume "fst (session_create now db s) = db1"
    with a1 show ?thesis by simp
  next
    assume eq: "fst (session_create now db s) =
        db1\<lparr>internal_sessions := internal_sessions db1 @ [row],
             internal_sessions_seq := internal_sessions_seq db1 + 1\<rparr>"
    show ?thesis
    proof (cases "srow_external_session_id row = e \<and> srow_is_current row")
      case False
      with a1 show ?thesis
        unfolding eq by (auto simp add: at_most_one_current_def current_sessions_def)
    next
      case True
      with rw dem have "filter (\<lambda>r. srow_external_session_id r = e \<and> srow_is_current r)
           (internal_sessions db1) = []"
        by (auto simp add: filter_empty_conv)
      with True show ?thesis
        unfolding eq by (simp add: at_most_one_current_def current_sessions_def)
    qed
  qed
qed

lemma amo_apply_op:
  assumes "sessions_keyed db" "\<forall>ext. at_most_one_current db ext" "ops_match_store db [op]"
  shows "\<forall>ext. at_most_one_current (apply_op db op) ext"
  using assms by (cases op) (simp_all add: amo_create amo_update amo_set_current amo_delete)

lemma amo_run_ops:
  "sessions_keyed db \<Longrightarrow> \<forall>ext. at_most_one_current db ext \<Longrightarrow> ops_match_store db ops \<Longrightarrow>
   sessions_keyed (run_ops db ops) \<and> (\<forall>ext. at_most_one_current (run_ops db ops) ext)"
proof (induction ops arbitrary: db)
  case Nil
  then show ?case by (simp add: run_ops_def)
next
  case (Cons op ops)
  have m1: "ops_match_store db [op]" and m2: "ops_match_store (apply_op db op) ops"
    using Cons.prems(3) by (cases op; simp)+
  have "run_ops db (op # ops) = run_ops (apply_op db op) ops" by (simp add: run_ops_def)
  with Cons.IH [OF keyed_apply_op [OF Cons.prems(1)] amo_apply_op [OF Cons.prems(1,2) m1] m2]
  show ?case by simp
qed

lemma demoted_create:
  assumes "is_current s"
  shows "others_demoted (fst (session_create now db s)) (external_session_id s)
           (internal_sessions_seq db + 1)"
proof -
  let ?db1 = "mark_all_not_current db (external_session_id s) None"
  have dem: "\<And>r. r \<in> set (internal_sessions ?db1) \<Longrightarrow>
      srow_external_session_id r = external_session_id s \<Longrightarrow> \<not> srow_is_current r"
    using mark_demotes [of _ db "external_session_id s" None] by (simp add: truthy_def)
  show ?thesis
    using assms dem
    by (cases "created_at_S s")
       (auto simp add: others_demoted_def list_all_iff session_create_def Let_def)
qed

lemma demoted_update:
  assumes "is_current s" "id_S s = Some i" "i \<noteq> 0"
  shows "others_demoted (fst (session_update db s)) (external_session_id s) i"
proof -
  let ?db1 = "mark_all_not_current db (external_session_id s) (Some i)"
  have dem: "\<And>r. r \<in> set (internal_sessions ?db1) \<Longrightarrow>
      srow_external_session_id r = external_session_id s \<Longrightarrow> srow_id r \<noteq> i \<Longrightarrow>
      \<not> srow_is_current r"
    using mark_demotes [of _ db "external_session_id s" "Some i"] assms(3)
    by (simp add: truthy_def)
  show ?thesis
    using assms dem
    by (auto simp add: others_demoted_def list_all_iff session_update_def Let_def truthy_def)
qed

lemma demoted_set_current:
  assumes "session_get_by_id db sid = Some x"
  shows "others_demoted (fst (set_current_session db sid)) (external_session_id x) sid"
proof -
  let ?db1 = "mark_all_not_current db (external_session_id x) None"
  have dem: "\<And>r. r \<in> set (internal_sessions ?db1) \<Longrightarrow>
      srow_external_session_id r = external_session_id x \<Longrightarrow> \<not> srow_is_current r"
    using mark_demotes [of _ db "external_session_id x" None] by (simp add: truthy_def)
  show ?thesis
    using assms dem
    by (auto simp add: others_demoted_def list_all_iff set_current_session_def Let_def)
qed

text \<open>
  C5 (as amended). Start from a store whose session ids are distinct and in which every
  external session has at most one current internal session. After any sequence of
  \<^verbatim>\<open>create\<close>, \<^verbatim>\<open>update\<close>, \<^verbatim>\<open>set_current_session\<close> and \<^verbatim>\<open>delete\<close> in which every
  \<^verbatim>\<open>update\<close> is given a session object that names the external session of its stored
  row, every external session still has at most one current internal session. Creating
  a session as current, updating one as current and promoting one with
  \<^verbatim>\<open>set_current_session\<close> each leave every other session of that external session not
  current.
\<close>

theorem at_most_one_current_preserved:
  "(sessions_keyed db \<and> (\<forall>ext. at_most_one_current db ext) \<and> ops_match_store db ops \<longrightarrow>
      (\<forall>ext. at_most_one_current (run_ops db ops) ext)) \<and>
   (is_current s \<longrightarrow>
      others_demoted (fst (session_create now db s)) (external_session_id s)
        (internal_sessions_seq db + 1)) \<and>
   (is_current s \<and> id_S s = Some i \<and> i \<noteq> 0 \<longrightarrow>
      others_demoted (fst (session_update db s)) (external_session_id s) i) \<and>
   (session_get_by_id db sid = Some x \<longrightarrow>
      others_demoted (fst (set_current_session db sid)) (external_session_id x) sid)"
  using amo_run_ops [of db ops] demoted_create [of s now db] demoted_update [of s i db]
    demoted_set_current [of db sid x]
  by blast

text \<open>
  C5 as stated fails for an \<^verbatim>\<open>update\<close> whose session object names another external
  session than its row: sessions 1 and 2 are created as current in external session 1,
  which demotes session 1; the update of an object with id 1, external session 2 and
  \<^verbatim>\<open>is_current = True\<close> demotes within external session 2 and marks row 1 current, so
  external session 1 has two current sessions.
\<close>

theorem update_with_foreign_session_counterexample:
  "\<not> at_most_one_current
       (run_ops empty_database
          [Create 10 (example_session 1 ''agno_a''), Create 20 (example_session 1 ''agno_b''),
           Update ((example_session 2 ''agno_a'')\<lparr>id_S := Some 1\<rparr>)]) 1"
  by (simp add: run_ops_def empty_database_def example_session_def session_create_def
        session_update_def mark_all_not_current_def truthy_def Let_def
        at_most_one_current_def current_sessions_def)

theorem at_most_one_current_preserved_witness:
  "at_most_one_current
     (run_ops empty_database
        [Create 10 (example_session 1 ''agno_a''), Create 20 (example_session 1 ''agno_b''),
         SetCurrent 1,
         Update ((example_session 1 ''agno_b'')\<lparr>id_S := Some 2\<rparr>)]) 1 \<and>
   others_demoted (fst (session_create 10 empty_database (example_session 1 ''agno_a''))) 1 1"
proof -
  let ?ops = "[Create 10 (example_session 1 ''agno_a''), Create 20 (example_session 1 ''agno_b''),
         SetCurrent 1,
         Update ((example_session 1 ''agno_b'')\<lparr>id_S := Some 2\<rparr>)]"
  have k: "sessions_keyed empty_database"
    by (simp add: sessions_keyed_def empty_database_def)
  have a: "\<forall>ext. at_most_one_current empty_database ext"
    by (simp add: at_most_one_current_def current_sessions_def empty_database_def)
  have m: "ops_match_store empty_database ?ops"
    by (simp add: empty_database_def example_session_def session_create_def
        session_update_def set_current_session_def session_get_by_id_def row_to_session_def
        mark_all_not_current_def truthy_def Let_def update_matches_store_def)
  have c: "is_current (example_session 1 ''agno_a'')" by (simp add: example_session_def)
  have e: "external_session_id (example_session 1 ''agno_a'') = 1" by (simp add: example_session_def)
  have q: "internal_sessions_seq empty_database + 1 = 1" by (simp add: empty_database_def)
  from at_most_one_current_preserved
    [of empty_database ?ops "example_session 1 ''agno_a''" 10 0 0 "example_session 1 ''agno_a''"] k a m c e q
  show ?thesis by simp
qed



section \<open>Properties of the checkpoint repository\<close>

lemma set_newest_first [simp]: "set (newest_first xs) = set xs"
  by (simp add: newest_first_def)

lemma length_newest_first [simp]: "length (newest_first xs) = length xs"
  by (simp add: newest_first_def)

lemma distinct_newest_first [simp]: "distinct (newest_first xs) = distinct xs"
  by (simp add: newest_first_def)

lemma set_auto_rows:
  "set (auto_rows db sid) =
     {r \<in> set (checkpoints db). row_internal_session_id r = sid \<and> row_is_auto r}"
  by (auto simp add: auto_rows_def)

lemma keyed_rows:
  assumes "checkpoints_keyed db"
  shows "distinct (checkpoints db)" "inj_on row_id (set (checkpoints db))"
  using assms by (simp_all add: checkpoints_keyed_def distinct_map)

lemma distinct_auto_rows:
  assumes "checkpoints_keyed db"
  shows "distinct (auto_rows db sid)"
  using keyed_rows(1) [OF assms] by (simp add: auto_rows_def)

lemma doomed_iff:
  assumes k: "checkpoints_keyed db" and r: "r \<in> set (checkpoints db)"
  shows "(row_internal_session_id r = sid \<and> row_is_auto r \<and>
          row_id r \<notin> row_id ` set (take n (auto_rows db sid)))
         \<longleftrightarrow> r \<in> set (drop n (auto_rows db sid))"
proof -
  let ?as = "auto_rows db sid"
  have split: "set ?as = set (take n ?as) \<union> set (drop n ?as)"
    by (metis append_take_drop_id set_append)
  have disj: "set (take n ?as) \<inter> set (drop n ?as) = {}"
    using distinct_auto_rows [OF k, of sid]
    by (metis append_take_drop_id distinct_append)
  have sub: "set ?as \<subseteq> set (checkpoints db)" by (auto simp add: set_auto_rows)
  show ?thesis
  proof
    assume l: "row_internal_session_id r = sid \<and> row_is_auto r \<and>
          row_id r \<notin> row_id ` set (take n ?as)"
    with r have "r \<in> set ?as" by (simp add: set_auto_rows)
    moreover from l have "r \<notin> set (take n ?as)" by blast
    ultimately show "r \<in> set (drop n ?as)" using split by blast
  next
    assume d: "r \<in> set (drop n ?as)"
    then have ra: "r \<in> set ?as" using split by blast
    then have A: "row_internal_session_id r = sid \<and> row_is_auto r" by (simp add: set_auto_rows)
    have "row_id r \<notin> row_id ` set (take n ?as)"
    proof
      assume "row_id r \<in> row_id ` set (take n ?as)"
      then obtain r' where r': "r' \<in> set (take n ?as)" "row_id r = row_id r'" by blast
      then have "r' \<in> set (checkpoints db)" using split sub by blast
      with keyed_rows(2) [OF k] r r'(2) have "r = r'" by (auto dest: inj_onD)
      with r'(1) d disj show False by blast
    qed
    with A show "row_internal_session_id r = sid \<and> row_is_auto r \<and>
          row_id r \<notin> row_id ` set (take n ?as)" by simp
  qed
qed

lemma doomed_char:
  assumes k: "checkpoints_keyed db" and n: "1 \<le> N" and r: "r \<in> set (checkpoints db)"
  shows "(if map row_id (sql_limit N (auto_rows db sid)) \<noteq> []
          then (\<lambda>r. row_internal_session_id r = sid \<and> row_is_auto r \<and>
                    row_id r \<notin> set (map row_id (sql_limit N (auto_rows db sid))))
          else (\<lambda>r. row_internal_session_id r = sid \<and> row_is_auto r)) r
         \<longleftrightarrow> r \<in> set (drop (nat N) (auto_rows db sid))"
proof -
  from n have lim: "sql_limit N (auto_rows db sid) = take (nat N) (auto_rows db sid)"
    by (simp add: sql_limit_def)
  show ?thesis
  proof (cases "take (nat N) (auto_rows db sid) = []")
    case True
    with n have e: "auto_rows db sid = []" by (cases "auto_rows db sid") (simp_all add: take_Cons')
    then have "\<not> (row_internal_session_id r = sid \<and> row_is_auto r)"
      using r set_auto_rows [of db sid] by auto
    with e lim show ?thesis by simp
  next
    case False
    with lim doomed_iff [OF k r, of sid "nat N"] show ?thesis by simp
  qed
qed

lemma length_filter_mem:
  assumes "distinct xs" "distinct ys" "set ys \<subseteq> set xs"
  shows "length (filter (\<lambda>x. x \<in> set ys) xs) = length ys"
proof -
  have "length (filter (\<lambda>x. x \<in> set ys) xs) = card ({x. x \<in> set ys} \<inter> set xs)"
    by (rule distinct_length_filter [OF assms(1)])
  also have "{x. x \<in> set ys} \<inter> set xs = set ys" using assms(3) by auto
  also have "card (set ys) = length ys" by (rule distinct_card [OF assms(2)])
  finally show ?thesis .
qed

lemma length_sql_limit:
  "1 \<le> N \<Longrightarrow> length (sql_limit N xs) = min (nat N) (length xs)"
  by (simp add: sql_limit_def)

lemma delete_auto_returns:
  assumes n: "1 \<le> N" and range: "in_sqlite_range sid" "in_sqlite_range N"
    and vars: "2 \<le> max_vars" "1 + min (nat N) (length (auto_rows db sid)) \<le> max_vars"
  shows "delete_auto_checkpoints max_vars db sid N =
     (db\<lparr>checkpoints :=
          filter (\<lambda>r. \<not> (if map row_id (sql_limit N (auto_rows db sid)) \<noteq> []
                          then (\<lambda>r. row_internal_session_id r = sid \<and> row_is_auto r \<and>
                                    row_id r \<notin> set (map row_id (sql_limit N (auto_rows db sid))))
                          else (\<lambda>r. row_internal_session_id r = sid \<and> row_is_auto r)) r)
            (checkpoints db)\<rparr>,
      Inr (length
        (filter (if map row_id (sql_limit N (auto_rows db sid)) \<noteq> []
                 then (\<lambda>r. row_internal_session_id r = sid \<and> row_is_auto r \<and>
                           row_id r \<notin> set (map row_id (sql_limit N (auto_rows db sid))))
                 else (\<lambda>r. row_internal_session_id r = sid \<and> row_is_auto r))
           (checkpoints db))))"
proof -
  have a: "\<not> max_vars < 2" using vars(1) by simp
  have b: "\<not> max_vars < 1 + length (map row_id (sql_limit N (auto_rows db sid)))"
    using vars(2) by (simp add: length_sql_limit [OF n])
  show ?thesis
    unfolding delete_auto_checkpoints_def Let_def
    using a b range by (simp split del: if_split)
qed

lemma delete_auto_rows:
  assumes k: "checkpoints_keyed db" and n: "1 \<le> N"
    and range: "in_sqlite_range sid" "in_sqlite_range N"
    and vars: "2 \<le> max_vars" "1 + min (nat N) (length (auto_rows db sid)) \<le> max_vars"
  shows "checkpoints (fst (delete_auto_checkpoints max_vars db sid N)) =
           filter (\<lambda>r. r \<notin> set (drop (nat N) (auto_rows db sid))) (checkpoints db)"
  unfolding delete_auto_returns [OF n range vars] fst_conv
  using doomed_char [OF k n, of _ sid]
  by (simp split del: if_split cong: filter_cong)

lemma delete_auto_count:
  assumes k: "checkpoints_keyed db" and n: "1 \<le> N"
    and range: "in_sqlite_range sid" "in_sqlite_range N"
    and vars: "2 \<le> max_vars" "1 + min (nat N) (length (auto_rows db sid)) \<le> max_vars"
  shows "snd (delete_auto_checkpoints max_vars db sid N) =
           Inr (length (auto_rows db sid) - nat N)"
proof -
  let ?D = "drop (nat N) (auto_rows db sid)"
  have "snd (delete_auto_checkpoints max_vars db sid N) =
      Inr (length (filter (\<lambda>r. r \<in> set ?D) (checkpoints db)))"
    unfolding delete_auto_returns [OF n range vars] snd_conv
    using doomed_char [OF k n, of _ sid]
    by (simp split del: if_split cong: filter_cong)
  moreover have "set ?D \<subseteq> set (auto_rows db sid)" by (rule set_drop_subset)
  then have sub: "set ?D \<subseteq> set (checkpoints db)" by (auto simp add: set_auto_rows)
  have "distinct ?D" using distinct_auto_rows [OF k, of sid] by simp
  from length_filter_mem [OF keyed_rows(1) [OF k] this sub]
  have "length (filter (\<lambda>r. r \<in> set ?D) (checkpoints db)) = length (auto_rows db sid) - nat N"
    by simp
  ultimately show ?thesis by simp
qed

lemma newest_first_sorted:
  "sorted (map (\<lambda>r. - int (row_created_at r)) (newest_first xs))"
  by (simp add: newest_first_def)

lemma kept_are_most_recent:
  assumes "a \<in> set (take n (auto_rows db sid))" "b \<in> set (drop n (auto_rows db sid))"
  shows "row_created_at b \<le> row_created_at a"
proof -
  let ?as = "auto_rows db sid"
  have "sorted (map (\<lambda>r. - int (row_created_at r)) (take n ?as @ drop n ?as))"
    by (simp add: auto_rows_def newest_first_sorted)
  then have "\<forall>x \<in> set (take n ?as). \<forall>y \<in> set (drop n ?as).
       - int (row_created_at x) \<le> - int (row_created_at y)"
    unfolding map_append sorted_append by auto
  with assms show ?thesis by fastforce
qed

lemma example_store_ids:
  "map row_id (checkpoints example_store) = [1, 2, 3, 4, 5, 6] \<and>
   map row_is_auto (checkpoints example_store) = [True, False, True, True, False, False] \<and>
   map row_created_at (checkpoints example_store) = [10, 20, 30, 40, 50, 60] \<and>
   map row_internal_session_id (checkpoints example_store) = [1, 1, 1, 1, 1, 1] \<and>
   checkpoints_seq example_store = 6"
  by (simp add: example_store_def empty_database_def example_checkpoint_def
        checkpoint_create_def Let_def)

lemma example_store_keyed: "checkpoints_keyed example_store"
  by (simp add: checkpoints_keyed_def example_store_def empty_database_def
        example_checkpoint_def checkpoint_create_def Let_def)

lemma example_auto_rows: "map row_id (auto_rows example_store 1) = [4, 3, 1]"
  by (simp add: auto_rows_def newest_first_def example_store_def empty_database_def
        example_checkpoint_def checkpoint_create_def Let_def)

lemma many_auto_store_Suc:
  "many_auto_store (Suc n) =
     fst (checkpoint_create (Suc n) (many_auto_store n)
            (example_checkpoint 1 ''After write_file'' True (Suc n)))"
  by (simp add: many_auto_store_def)

lemma many_auto_store_rows:
  "length (checkpoints (many_auto_store n)) = n \<and>
   list_all (\<lambda>r. row_internal_session_id r = 1 \<and> row_is_auto r) (checkpoints (many_auto_store n))"
proof (induction n)
  case 0
  show ?case by (simp add: many_auto_store_def empty_database_def)
next
  case (Suc n)
  then show ?case
    unfolding many_auto_store_Suc
    by (simp add: checkpoint_create_def example_checkpoint_def Let_def)
qed

lemma many_auto_store_auto_rows: "length (auto_rows (many_auto_store n) 1) = n"
proof -
  have "filter (\<lambda>r. row_internal_session_id r = 1 \<and> row_is_auto r)
          (checkpoints (many_auto_store n)) = checkpoints (many_auto_store n)"
    using many_auto_store_rows [of n] by (simp add: list_all_iff)
  then show ?thesis using many_auto_store_rows [of n] by (simp add: auto_rows_def)
qed





section \<open>Properties of the agent's checkpoint tools\<close>

lemma checkpoints_mark [simp]:
  "checkpoints (mark_all_not_current db ext ex) = checkpoints db"
  by (simp add: mark_all_not_current_def)

lemma checkpoints_session_update [simp]:
  "checkpoints (fst (session_update db s)) = checkpoints db"
  by (simp add: session_update_def Let_def)

lemma checkpoints_save [simp]:
  "checkpoints (save_internal_session db agent) = checkpoints db"
  by (simp add: save_internal_session_def)

lemma checkpoint_create_rows:
  assumes "internal_session_id cp = Some sid" "created_at_C cp = Some t"
  shows "checkpoint_create now db cp =
     (db\<lparr>checkpoints := checkpoints db @
           [\<lparr>row_id = checkpoints_seq db + 1, row_internal_session_id = sid,
             row_checkpoint_name = checkpoint_name cp, row_checkpoint_data = cp,
             row_is_auto = is_auto cp, row_created_at = t\<rparr>],
         checkpoints_seq := checkpoints_seq db + 1\<rparr>,
      Inr (cp\<lparr>id_C := Some (checkpoints_seq db + 1)\<rparr>))"
  using assms by (simp add: checkpoint_create_def Let_def)

lemma truthy_Some: "truthy i \<Longrightarrow> \<exists>n. i = Some n \<and> n \<noteq> 0"
  by (cases i) (simp_all add: truthy_def)

lemma from_internal_session_fields:
  "internal_session_id (from_internal_session now s cname auto) = id_S s"
  "created_at_C (from_internal_session now s cname auto) = Some now"
  "metadata (from_internal_session now s cname auto) =
     [(''agno_session_id'', JStr (agno_session_id s)),
      (''checkpoint_count'', JInt (checkpoint_count s + 1))]"
  by (simp_all add: from_internal_session_def)

lemma create_auto_checkpoint_rows:
  "checkpoints (fst (create_auto_checkpoint now db agent cname)) =
     (if has_checkpoint_repo agent \<and> truthy (id_S (internal_session agent))
      then checkpoints db @
           [\<lparr>row_id = checkpoints_seq db + 1,
             row_internal_session_id = the (id_S (internal_session agent)),
             row_checkpoint_name = Some cname,
             row_checkpoint_data = from_internal_session now (internal_session agent) (Some cname) True,
             row_is_auto = True, row_created_at = now\<rparr>]
      else checkpoints db)"
proof (cases "has_checkpoint_repo agent \<and> truthy (id_S (internal_session agent))")
  case False
  then show ?thesis by (auto simp add: create_auto_checkpoint_def)
next
  case True
  then obtain n where n: "id_S (internal_session agent) = Some n" using truthy_Some by blast
  from True n show ?thesis
    by (simp add: create_auto_checkpoint_def
          checkpoint_create_rows [OF _ from_internal_session_fields(2), of _ _ _ _ n]
          from_internal_session_fields(1))
       (simp add: from_internal_session_def)
qed

lemma create_checkpoint_tool_rows:
  "\<exists>cname. checkpoints (fst (snd (create_checkpoint_tool fmt now db agent name_arg))) =
     (if has_checkpoint_repo agent \<and> truthy (id_S (internal_session agent))
      then checkpoints db @
           [\<lparr>row_id = checkpoints_seq db + 1,
             row_internal_session_id = the (id_S (internal_session agent)),
             row_checkpoint_name = Some cname,
             row_checkpoint_data = from_internal_session now (internal_session agent) (Some cname) False,
             row_is_auto = False, row_created_at = now\<rparr>]
      else checkpoints db)"
proof (cases "has_checkpoint_repo agent \<and> truthy (id_S (internal_session agent))")
  case False
  then show ?thesis by (auto simp add: create_checkpoint_tool_def Let_def)
next
  case True
  then obtain n where n: "id_S (internal_session agent) = Some n" using truthy_Some by blast
  define cname where "cname = (case name_arg of
                     None \<Rightarrow> ''Checkpoint at '' @ fmt now
                   | Some n \<Rightarrow> if n = [] then ''Checkpoint at '' @ fmt now else n)"
  from True n have "checkpoints (fst (snd (create_checkpoint_tool fmt now db agent name_arg))) =
      checkpoints db @
           [\<lparr>row_id = checkpoints_seq db + 1,
             row_internal_session_id = the (id_S (internal_session agent)),
             row_checkpoint_name = Some cname,
             row_checkpoint_data = from_internal_session now (internal_session agent) (Some cname) False,
             row_is_auto = False, row_created_at = now\<rparr>]"
    unfolding create_checkpoint_tool_def Let_def cname_def [symmetric]
    by (simp add: 
          checkpoint_create_rows [OF _ from_internal_session_fields(2), of _ _ _ _ n]
          from_internal_session_fields(1))
       (simp add: from_internal_session_def)
  with True show ?thesis by auto
qed

text \<open>
  C3 fails on the code. Every checkpoint the engine creates, manual
  (\<^verbatim>\<open>create_checkpoint_tool\<close>) or automatic (\<^verbatim>\<open>_create_auto_checkpoint\<close>), is built by
  \<^verbatim>\<open>Checkpoint.from_internal_session\<close>, which writes the metadata keys \<^verbatim>\<open>agno_session_id\<close>
  and \<^verbatim>\<open>checkpoint_count\<close> and no \<^verbatim>\<open>tool_track_position\<close>. At the example agent, whose
  session has id 1, either path appends to the six rows of the example store one row,
  with id 7, whose metadata has exactly these two keys.
\<close>

theorem created_checkpoints_lack_track_position:
  "map (\<lambda>r. (row_id r, row_is_auto r, map fst (metadata (row_checkpoint_data r))))
     (drop (length (checkpoints example_store))
        (checkpoints (fst (snd (create_checkpoint_tool fmt 70 example_store example_agent
           (Some ''Gamma''))))))
     = [(7, False, [''agno_session_id'', ''checkpoint_count''])] \<and>
   map (\<lambda>r. (row_id r, row_is_auto r, map fst (metadata (row_checkpoint_data r))))
     (drop (length (checkpoints example_store))
        (checkpoints (fst (create_auto_checkpoint 70 example_store example_agent
           ''After write_file''))))
     = [(7, True, [''agno_session_id'', ''checkpoint_count''])] \<and>
   metadata (from_internal_session now s cname auto) =
     [(''agno_session_id'', JStr (agno_session_id s)),
      (''checkpoint_count'', JInt (checkpoint_count s + 1))] \<and>
   ''tool_track_position'' \<notin> fst ` set (metadata (from_internal_session now s cname auto))"
proof -
  have g: "has_checkpoint_repo example_agent \<and> truthy (id_S (internal_session example_agent))"
    by (simp add: example_agent_def truthy_def)
  obtain mname where m:
    "checkpoints (fst (snd (create_checkpoint_tool fmt 70 example_store example_agent
        (Some ''Gamma'')))) =
     checkpoints example_store @
       [\<lparr>row_id = checkpoints_seq example_store + 1,
         row_internal_session_id = the (id_S (internal_session example_agent)),
         row_checkpoint_name = Some mname,
         row_checkpoint_data =
           from_internal_session 70 (internal_session example_agent) (Some mname) False,
         row_is_auto = False, row_created_at = 70\<rparr>]"
    using create_checkpoint_tool_rows [of fmt 70 example_store example_agent "Some ''Gamma''"] g
    by auto
  have a:
    "checkpoints (fst (create_auto_checkpoint 70 example_store example_agent
        ''After write_file'')) =
     checkpoints example_store @
       [\<lparr>row_id = checkpoints_seq example_store + 1,
         row_internal_session_id = the (id_S (internal_session example_agent)),
         row_checkpoint_name = Some ''After write_file'',
         row_checkpoint_data =
           from_internal_session 70 (internal_session example_agent)
             (Some ''After write_file'') True,
         row_is_auto = True, row_created_at = 70\<rparr>]"
    using create_auto_checkpoint_rows [of 70 example_store example_agent "''After write_file''"] g
    by simp
  have q: "checkpoints_seq example_store = 6" using example_store_ids by simp
  show ?thesis
    unfolding m a q by (simp add: from_internal_session_fields(3))
qed

lemma find_map: "find P (map f xs) = map_option f (find (P \<circ> f) xs)"
  by (induction xs) simp_all


lemma sorted_find_first:
  assumes s: "sorted (map k xs)" and f: "find P xs = Some x" and y: "y \<in> set xs" "P y"
  shows "k x \<le> k y"
proof -
  from f obtain i where i: "i < length xs" "xs ! i = x" "\<forall>j<i. \<not> P (xs ! j)"
    unfolding find_Some_iff by blast
  from y(1) obtain j where j: "j < length xs" "xs ! j = y" unfolding in_set_conv_nth by blast
  with i(3) y(2) have "i \<le> j" by (metis not_le_imp_less)
  with s j(1) i(1) have "map k xs ! i \<le> map k xs ! j" by (simp add: sorted_iff_nth_mono)
  with i j show ?thesis by simp
qed

text \<open>
  C7 (as amended). Whatever strings \<^verbatim>\<open>int\<close> accepts and however \<^verbatim>\<open>str.lower\<close> maps
  them: when the argument parses as an integer (one that fits SQLite's 64 bits), the
  lookup is by id. When it does not parse, and the current internal session has its id,
  the checkpoint selected is the first, newest first, among all the checkpoints of the
  current internal session, manual and automatic, whose name is not empty and equals the
  argument after lower-casing both: none is selected exactly when no checkpoint of the
  session matches, and no matching checkpoint of the session is newer than the one
  selected.
\<close>

theorem name_lookup_contract:
  "(to_int q = Some i \<and> in_sqlite_range i \<longrightarrow>
      find_checkpoint to_int to_lower db agent (ArgStr q) = Inr (checkpoint_get_by_id db i)) \<and>
   (to_int q = None \<and> id_S (internal_session agent) = Some sid \<and> sid \<noteq> 0 \<and>
    in_sqlite_range sid \<longrightarrow>
      find_checkpoint to_int to_lower db agent (ArgStr q) =
        Inr (find (name_matches to_lower q) (get_by_internal_session db sid False)) \<and>
      (find_checkpoint to_int to_lower db agent (ArgStr q) = Inr None \<longleftrightarrow>
         list_all (\<lambda>r. \<not> (row_internal_session_id r = sid \<and>
                           name_matches to_lower q (row_to_checkpoint r))) (checkpoints db)) \<and>
      (\<forall>cp. find_checkpoint to_int to_lower db agent (ArgStr q) = Inr (Some cp) \<longrightarrow>
         (\<exists>n. checkpoint_name cp = Some n \<and> n \<noteq> [] \<and> to_lower n = to_lower q) \<and>
         (\<exists>r \<in> set (checkpoints db).
            cp = row_to_checkpoint r \<and> row_internal_session_id r = sid \<and>
            list_all (\<lambda>r'. \<not> (row_internal_session_id r' = sid \<and>
                               name_matches to_lower q (row_to_checkpoint r') \<and>
                               row_created_at r < row_created_at r'))
              (checkpoints db))))"
proof (intro conjI impI, goal_cases)
  case 1
  then show ?case by (simp add: find_checkpoint_def get_by_id_bound_def)
next
  case 2
  then show ?case by (simp add: find_checkpoint_def)
next
  case 3
  then have e: "find_checkpoint to_int to_lower db agent (ArgStr q) =
      Inr (find (name_matches to_lower q) (get_by_internal_session db sid False))"
    by (simp add: find_checkpoint_def)
  show ?case
    unfolding e sum.inject find_None_iff
    by (auto simp add: get_by_internal_session_def list_all_iff)
next
  case 4
  then have e: "find_checkpoint to_int to_lower db agent (ArgStr q) =
      Inr (find (name_matches to_lower q) (get_by_internal_session db sid False))"
    by (simp add: find_checkpoint_def)
  let ?rows = "newest_first (filter (\<lambda>r. row_internal_session_id r = sid) (checkpoints db))"
  have g: "get_by_internal_session db sid False = map row_to_checkpoint ?rows"
    by (simp add: get_by_internal_session_def)
  show ?case
  proof (intro allI impI)
    fix cp assume "find_checkpoint to_int to_lower db agent (ArgStr q) = Inr (Some cp)"
    with e g have "map_option row_to_checkpoint (find (name_matches to_lower q \<circ> row_to_checkpoint) ?rows) = Some cp"
      by (simp add: find_map)
    then obtain r where r: "find (name_matches to_lower q \<circ> row_to_checkpoint) ?rows = Some r"
      "cp = row_to_checkpoint r" by auto
    from r(1) obtain i where i: "i < length ?rows" "?rows ! i = r"
      and rm: "name_matches to_lower q (row_to_checkpoint r)"
      unfolding find_Some_iff by auto
    from nth_mem [OF i(1)] i(2) have rin: "r \<in> set ?rows" by simp
    from rin have r1: "r \<in> set (checkpoints db)" "row_internal_session_id r = sid"
      by (simp_all add: newest_first_def)
    have srt: "sorted (map (\<lambda>r. - int (row_created_at r)) ?rows)"
      by (simp add: newest_first_def)
    have newest: "list_all (\<lambda>r'. \<not> (row_internal_session_id r' = sid \<and>
                               name_matches to_lower q (row_to_checkpoint r') \<and>
                               row_created_at r < row_created_at r')) (checkpoints db)"
      unfolding list_all_iff
    proof (intro ballI notI)
      fix r' assume r': "r' \<in> set (checkpoints db)"
        and c: "row_internal_session_id r' = sid \<and> name_matches to_lower q (row_to_checkpoint r') \<and>
                row_created_at r < row_created_at r'"
      from r' c have "r' \<in> set ?rows" by (simp add: newest_first_def)
      from sorted_find_first [OF srt r(1) this] c
      show False by simp
    qed
    from rm r(2) have nm: "\<exists>n. checkpoint_name cp = Some n \<and> n \<noteq> [] \<and> to_lower n = to_lower q"
      by (auto simp add: name_matches_def split: option.splits)
    from nm r1 r(2) newest
    show "(\<exists>n. checkpoint_name cp = Some n \<and> n \<noteq> [] \<and> to_lower n = to_lower q) \<and>
         (\<exists>r \<in> set (checkpoints db).
            cp = row_to_checkpoint r \<and> row_internal_session_id r = sid \<and>
            list_all (\<lambda>r'. \<not> (row_internal_session_id r' = sid \<and>
                               name_matches to_lower q (row_to_checkpoint r') \<and>
                               row_created_at r < row_created_at r'))
              (checkpoints db))" by blast
  qed
qed

lemmas example_eval = example_store_def empty_database_def example_checkpoint_def
  checkpoint_create_def Let_def example_agent_def example_session_def
  find_checkpoint_def get_by_id_bound_def in_sqlite_range_def
  get_by_internal_session_def newest_first_def row_to_checkpoint_def
  name_matches_def lower_def lower_char_def py_int_of_str_def strip_def is_space_def
  py_unsigned_def digit_of_def spec_find_by_name_def checkpoint_get_by_id_def

lemma py_int_examples:
  "py_int_of_str ''alpha'' = None" "py_int_of_str '' 1_000 '' = Some 1000"
  "py_int_of_str ''-42'' = Some (-42)" "py_int_of_str ''1__0'' = None"
  "py_int_of_str ''12_'' = None" "py_int_of_str ''+7'' = Some 7" "py_int_of_str [] = None"
  "py_int_of_str [CHR 0x1C, CHR ''4''] = None" "py_int_of_str [CHR 0xA0, CHR ''4''] = Some 4"
  "py_int_of_str ''+ 1'' = None" "py_int_of_str ''0x10'' = None"
  by (simp_all add: py_int_of_str_def strip_def is_space_def py_unsigned_def digit_of_def)

lemma lower_examples:
  "lower ''After SEARCH'' = ''after search''" "lower [CHR 0xC9] = [CHR 0xE9]"
  "lower [CHR 0xD7, CHR 0xDF, CHR 0xE9] = [CHR 0xD7, CHR 0xDF, CHR 0xE9]"
  by (simp_all add: lower_def lower_char_def)

text \<open>
  C7 as stated fails on the example store: \<^verbatim>\<open>alp\<close> is a substring of the manual
  checkpoint names \<^verbatim>\<open>ALPHA\<close> and \<^verbatim>\<open>Alpha\<close>, yet the lookup finds nothing; and
  \<^verbatim>\<open>after SEARCH\<close> selects the automatic checkpoint 3, which a match over the manual
  checkpoints does not see.
\<close>

theorem name_lookup_counterexample:
  "find_checkpoint py_int_of_str lower example_store example_agent (ArgStr ''alp'')
     = Inr None \<and>
   map_option id_C (spec_find_by_name lower example_store 1 ''alp'') = Some (Some 5) \<and>
   map_sum id (map_option id_C)
     (find_checkpoint py_int_of_str lower example_store example_agent (ArgStr ''after SEARCH''))
     = Inr (Some (Some 3)) \<and>
   map_option id_C (spec_find_by_name lower example_store 1 ''after SEARCH'') = None"
  by (simp add: example_eval)

theorem name_lookup_contract_witness:
  "map_sum id (map_option id_C)
     (find_checkpoint py_int_of_str lower example_store example_agent (ArgStr ''alpha''))
     = Inr (Some (Some 5)) \<and>
   find_checkpoint py_int_of_str lower example_store example_agent (ArgStr ''4'') =
     Inr (checkpoint_get_by_id example_store 4)"
proof -
  have p: "py_int_of_str ''alpha'' = None" "py_int_of_str ''4'' = Some 4"
    by (simp_all add: py_int_of_str_def strip_def is_space_def py_unsigned_def digit_of_def)
  have s: "id_S (internal_session example_agent) = Some 1"
    by (simp add: example_agent_def)
  have g: "in_sqlite_range 1" "in_sqlite_range 4" by (simp_all add: in_sqlite_range_def)
  from name_lookup_contract [of py_int_of_str "''alpha''" 0 lower example_store example_agent 1]
    p(1) s g
  have 1: "find_checkpoint py_int_of_str lower example_store example_agent (ArgStr ''alpha'') =
        Inr (find (name_matches lower ''alpha'') (get_by_internal_session example_store 1 False))"
    by simp
  have 2: "map_option id_C
      (find (name_matches lower ''alpha'') (get_by_internal_session example_store 1 False))
     = Some (Some 5)"
    by (simp add: example_eval)
  from name_lookup_contract [of py_int_of_str "''4''" 4 lower example_store example_agent 1]
    p(2) g
  have 3: "find_checkpoint py_int_of_str lower example_store example_agent (ArgStr ''4'') =
     Inr (checkpoint_get_by_id example_store 4)" by simp
  from 1 2 3 show ?thesis by simp
qed

lemma map_of_request_rollback:
  "map_of (request_rollback st cid) =
     (map_of st)(''rollback_requested'' \<mapsto> JBool True,
                 ''rollback_checkpoint_id'' \<mapsto> json_of_id cid)"
  by (simp add: request_rollback_def update_conv')

lemma rollback_tool_cases:
  "(rollback_to_checkpoint_tool to_int to_lower sys a = (Inr Unavailable, sys) \<and>
      \<not> has_checkpoint_repo (sys_agent sys)) \<or>
   (rollback_to_checkpoint_tool to_int to_lower sys a = (Inr NotFound, sys) \<and>
      find_checkpoint to_int to_lower (sys_db sys) (sys_agent sys) a = Inr None) \<or>
   (\<exists>e. rollback_to_checkpoint_tool to_int to_lower sys a = (Inl e, sys)) \<or>
   (\<exists>cp st. find_checkpoint to_int to_lower (sys_db sys) (sys_agent sys) a = Inr (Some cp) \<and>
      session_state (sys_agent sys) = Some st \<and>
      rollback_to_checkpoint_tool to_int to_lower sys a =
        (Inr (RollbackRequested (id_C cp) (checkpoint_name cp)),
         sys\<lparr>sys_agent := (sys_agent sys)
               \<lparr>session_state := Some (request_rollback st (id_C cp)),
                internal_session :=
                  (if state_shared (sys_agent sys)
                   then (internal_session (sys_agent sys))
                          \<lparr>session_state_S := request_rollback st (id_C cp)\<rparr>
                   else internal_session (sys_agent sys))\<rparr>\<rparr>))"
proof (cases "has_checkpoint_repo (sys_agent sys)")
  case False
  then show ?thesis by (simp add: rollback_to_checkpoint_tool_def)
next
  case True
  show ?thesis
  proof (cases "find_checkpoint to_int to_lower (sys_db sys) (sys_agent sys) a")
    case (Inl e)
    with True show ?thesis by (simp add: rollback_to_checkpoint_tool_def)
  next
    case (Inr found)
    show ?thesis
    proof (cases found)
      case None
      with True Inr show ?thesis by (simp add: rollback_to_checkpoint_tool_def)
    next
      case (Some cp)
      show ?thesis
      proof (cases "session_state (sys_agent sys)")
        case None
        with True Inr Some show ?thesis by (simp add: rollback_to_checkpoint_tool_def)
      next
        case st: (Some st)
        with True Inr Some show ?thesis by (simp add: rollback_to_checkpoint_tool_def Let_def)
      qed
    qed
  qed
qed

text \<open>
  C8. A successful call of \<^verbatim>\<open>rollback_to_checkpoint_tool\<close> (the reply is the rollback
  request for the id of the checkpoint found) sets \<^verbatim>\<open>rollback_requested\<close> to true and
  \<^verbatim>\<open>rollback_checkpoint_id\<close> to that id in the session state and changes nothing else:
  every other key of the session state, the conversation history, the store (the
  checkpoints, the internal sessions with their current flags, the external sessions
  with their current-session pointers) and the registry with its track are as before.
  Where the internal session holds the same dictionary object as its session state, that
  one dictionary is what changed. A call with any other reply changes nothing.
\<close>

theorem rollback_tool_frame:
  "(rollback_to_checkpoint_tool to_int to_lower sys a = (Inr (RollbackRequested cid nm), sys') \<longrightarrow>
      (\<exists>st. session_state (sys_agent sys) = Some st \<and>
            session_state (sys_agent sys') = Some (request_rollback st cid) \<and>
            map_of (request_rollback st cid) =
              (map_of st)(''rollback_requested'' \<mapsto> JBool True,
                          ''rollback_checkpoint_id'' \<mapsto> json_of_id cid) \<and>
            sys' = sys\<lparr>sys_agent := (sys_agent sys)
                     \<lparr>session_state := Some (request_rollback st cid),
                      internal_session :=
                        (if state_shared (sys_agent sys)
                         then (internal_session (sys_agent sys))
                                \<lparr>session_state_S := request_rollback st cid\<rparr>
                         else internal_session (sys_agent sys))\<rparr>\<rparr>) \<and>
      (\<exists>cp. find_checkpoint to_int to_lower (sys_db sys) (sys_agent sys) a = Inr (Some cp) \<and> id_C cp = cid) \<and>
      conversation_history_S (internal_session (sys_agent sys')) =
        conversation_history_S (internal_session (sys_agent sys)) \<and>
      sys_db sys' = sys_db sys \<and>
      checkpoints (sys_db sys') = checkpoints (sys_db sys) \<and>
      external_sessions (sys_db sys') = external_sessions (sys_db sys) \<and>
      internal_sessions (sys_db sys') = internal_sessions (sys_db sys) \<and>
      sys_registry sys' = sys_registry sys \<and>
      get_track (sys_registry sys') = get_track (sys_registry sys)) \<and>
   (rollback_to_checkpoint_tool to_int to_lower sys a = (reply, sys') \<and>
    (\<forall>c n. reply \<noteq> Inr (RollbackRequested c n)) \<longrightarrow> sys' = sys)"
proof (intro conjI impI)
  assume "rollback_to_checkpoint_tool to_int to_lower sys a = (reply, sys') \<and>
    (\<forall>c n. reply \<noteq> Inr (RollbackRequested c n))"
  with rollback_tool_cases [of to_int to_lower sys a] show "sys' = sys" by auto
next
  assume ok: "rollback_to_checkpoint_tool to_int to_lower sys a = (Inr (RollbackRequested cid nm), sys')"
  with rollback_tool_cases [of to_int to_lower sys a] obtain cp st where
    f: "find_checkpoint to_int to_lower (sys_db sys) (sys_agent sys) a = Inr (Some cp)"
    and st: "session_state (sys_agent sys) = Some st"
    and r: "rollback_to_checkpoint_tool to_int to_lower sys a =
        (Inr (RollbackRequested (id_C cp) (checkpoint_name cp)),
         sys\<lparr>sys_agent := (sys_agent sys)
               \<lparr>session_state := Some (request_rollback st (id_C cp)),
                internal_session :=
                  (if state_shared (sys_agent sys)
                   then (internal_session (sys_agent sys))
                          \<lparr>session_state_S := request_rollback st (id_C cp)\<rparr>
                   else internal_session (sys_agent sys))\<rparr>\<rparr>)"
    by auto
  define sys1 where "sys1 = sys\<lparr>sys_agent := (sys_agent sys)
               \<lparr>session_state := Some (request_rollback st (id_C cp)),
                internal_session :=
                  (if state_shared (sys_agent sys)
                   then (internal_session (sys_agent sys))
                          \<lparr>session_state_S := request_rollback st (id_C cp)\<rparr>
                   else internal_session (sys_agent sys))\<rparr>\<rparr>"
  from ok r have c: "cid = id_C cp" and s1: "sys' = sys1"
    unfolding sys1_def [symmetric] by simp_all
  have s': "sys' = sys\<lparr>sys_agent := (sys_agent sys)
               \<lparr>session_state := Some (request_rollback st (id_C cp)),
                internal_session :=
                  (if state_shared (sys_agent sys)
                   then (internal_session (sys_agent sys))
                          \<lparr>session_state_S := request_rollback st (id_C cp)\<rparr>
                   else internal_session (sys_agent sys))\<rparr>\<rparr>"
    using s1 by (simp only: sys1_def)
  show "\<exists>st. session_state (sys_agent sys) = Some st \<and>
            session_state (sys_agent sys') = Some (request_rollback st cid) \<and>
            map_of (request_rollback st cid) =
              (map_of st)(''rollback_requested'' \<mapsto> JBool True,
                          ''rollback_checkpoint_id'' \<mapsto> json_of_id cid) \<and>
            sys' = sys\<lparr>sys_agent := (sys_agent sys)
                     \<lparr>session_state := Some (request_rollback st cid),
                      internal_session :=
                        (if state_shared (sys_agent sys)
                         then (internal_session (sys_agent sys))
                                \<lparr>session_state_S := request_rollback st cid\<rparr>
                         else internal_session (sys_agent sys))\<rparr>\<rparr>"
    using st s' unfolding c by (simp add: map_of_request_rollback)
  show "\<exists>cp. find_checkpoint to_int to_lower (sys_db sys) (sys_agent sys) a = Inr (Some cp) \<and> id_C cp = cid"
    using f c by simp
  show "conversation_history_S (internal_session (sys_agent sys')) =
        conversation_history_S (internal_session (sys_agent sys))"
    unfolding s' by simp
  show db: "sys_db sys' = sys_db sys" unfolding s' by simp
  show "checkpoints (sys_db sys') = checkpoints (sys_db sys)" unfolding db ..
  show "external_sessions (sys_db sys') = external_sessions (sys_db sys)" unfolding db ..
  show "internal_sessions (sys_db sys') = internal_sessions (sys_db sys)" unfolding db ..
  show rg: "sys_registry sys' = sys_registry sys" unfolding s' by simp
  show "get_track (sys_registry sys') = get_track (sys_registry sys)" unfolding rg ..
qed

theorem rollback_tool_frame_witness:
  "(\<exists>sys'. rollback_to_checkpoint_tool py_int_of_str lower
       \<lparr>sys_agent = example_agent, sys_db = example_store, sys_registry = example_registry\<rparr>
       (ArgStr ''beta'') = (Inr (RollbackRequested (Some 6) (Some ''Beta'')), sys') \<and>
     session_state (sys_agent sys') =
       Some [(''topic'', JStr ''cats''), (''rollback_requested'', JBool True),
             (''rollback_checkpoint_id'', JInt 6)] \<and>
     sys_db sys' = example_store \<and> sys_registry sys' = example_registry \<and>
     conversation_history_S (internal_session (sys_agent sys')) =
       conversation_history_S (internal_session example_agent))"
proof -
  let ?sys = "\<lparr>sys_agent = example_agent, sys_db = example_store, sys_registry = example_registry\<rparr>"
  have f: "map_sum id (map_option (\<lambda>cp. (id_C cp, checkpoint_name cp)))
      (find_checkpoint py_int_of_str lower example_store example_agent (ArgStr ''beta''))
      = Inr (Some (Some 6, Some ''Beta''))"
    by (simp add: example_eval)
  then obtain cp where
    cp: "find_checkpoint py_int_of_str lower example_store example_agent (ArgStr ''beta'')
           = Inr (Some cp)"
    "id_C cp = Some 6" "checkpoint_name cp = Some ''Beta''"
    by (cases "find_checkpoint py_int_of_str lower example_store example_agent (ArgStr ''beta'')")
       auto
  have st: "session_state example_agent = Some [(''topic'', JStr ''cats'')]"
    "has_checkpoint_repo example_agent" by (simp_all add: example_agent_def)
  obtain sys' where r: "rollback_to_checkpoint_tool py_int_of_str lower ?sys (ArgStr ''beta'') =
      (Inr (RollbackRequested (Some 6) (Some ''Beta'')), sys')"
    using cp st by (simp add: rollback_to_checkpoint_tool_def Let_def)
  from rollback_tool_frame [of py_int_of_str lower ?sys "ArgStr ''beta''" "Some 6" "Some ''Beta''"
      sys' "Inr Unavailable"] r st
  have "session_state (sys_agent sys') =
       Some (request_rollback [(''topic'', JStr ''cats'')] (Some 6))"
    and "sys_db sys' = example_store" and "sys_registry sys' = example_registry"
    and "conversation_history_S (internal_session (sys_agent sys')) =
       conversation_history_S (internal_session example_agent)"
    by auto
  with r show ?thesis by (auto simp add: request_rollback_def json_of_id_def)
qed


section \<open>Properties of the fork from a checkpoint\<close>

lemma copy_for_literal:
  "\<lparr>id_C = None, internal_session_id = Some new_sid, checkpoint_name = checkpoint_name cp,
    session_state_C = session_state_C cp, conversation_history_C = conversation_history_C cp,
    is_auto = is_auto cp, created_at_C = created_at_C cp, metadata = metadata cp\<rparr>
   = copy_for new_sid cp"
  by (cases cp) (simp add: copy_for_def)

lemma copy_for_fields:
  "internal_session_id (copy_for n cp) = Some n"
  "created_at_C (copy_for n cp) = created_at_C cp"
  by (simp_all add: copy_for_def)

lemma copy_checkpoints_rows:
  "\<exists>R. copy_checkpoints now db target new_sid cps =
          (db\<lparr>checkpoints := checkpoints db @ R,
               checkpoints_seq := checkpoints_seq db + int (length R)\<rparr>, None) \<and>
        map row_checkpoint_data R =
          map (copy_for new_sid) (filter (\<lambda>cp. created_not_after cp target) cps) \<and>
        list_all (\<lambda>r. row_internal_session_id r = new_sid) R"
proof (induction cps arbitrary: db)
  case Nil
  have "copy_checkpoints now db target new_sid [] =
          (db\<lparr>checkpoints := checkpoints db @ [],
               checkpoints_seq := checkpoints_seq db + int (length ([]::checkpoint_row list))\<rparr>, None)"
    by simp
  then show ?case by (intro exI [of _ "[]"]) simp
next
  case (Cons cp cps)
  show ?case
  proof (cases "created_not_after cp target")
    case False
    with Cons.IH [of db] show ?thesis by simp
  next
    case True
    then obtain a where a: "created_at_C cp = Some a"
      by (auto simp add: created_not_after_def split: option.splits)
    define row where "row = \<lparr>row_id = checkpoints_seq db + 1, row_internal_session_id = new_sid,
             row_checkpoint_name = checkpoint_name (copy_for new_sid cp),
             row_checkpoint_data = copy_for new_sid cp,
             row_is_auto = is_auto (copy_for new_sid cp), row_created_at = a\<rparr>"
    define db1 where "db1 = db\<lparr>checkpoints := checkpoints db @ [row],
         checkpoints_seq := checkpoints_seq db + 1\<rparr>"
    have cr: "checkpoint_create now db (copy_for new_sid cp) =
        (db1, Inr ((copy_for new_sid cp)\<lparr>id_C := Some (checkpoints_seq db + 1)\<rparr>))"
      unfolding db1_def row_def
      by (rule checkpoint_create_rows) (simp_all add: copy_for_fields a)
    from Cons.IH [of db1] obtain R where R:
      "copy_checkpoints now db1 target new_sid cps =
          (db1\<lparr>checkpoints := checkpoints db1 @ R,
               checkpoints_seq := checkpoints_seq db1 + int (length R)\<rparr>, None)"
      "map row_checkpoint_data R =
          map (copy_for new_sid) (filter (\<lambda>cp. created_not_after cp target) cps)"
      "list_all (\<lambda>r. row_internal_session_id r = new_sid) R" by blast
    have "copy_checkpoints now db target new_sid (cp # cps) =
        copy_checkpoints now db1 target new_sid cps"
      using True cr by (simp add: copy_for_literal)
    also have "\<dots> = (db\<lparr>checkpoints := checkpoints db @ (row # R),
               checkpoints_seq := checkpoints_seq db + int (length (row # R))\<rparr>, None)"
      unfolding R(1) by (simp add: db1_def)
    finally have 1: "copy_checkpoints now db target new_sid (cp # cps) =
       (db\<lparr>checkpoints := checkpoints db @ (row # R),
               checkpoints_seq := checkpoints_seq db + int (length (row # R))\<rparr>, None)" .
    have 2: "map row_checkpoint_data (row # R) =
          map (copy_for new_sid) (filter (\<lambda>cp. created_not_after cp target) (cp # cps))"
      using True R(2) by (simp add: row_def)
    have 3: "list_all (\<lambda>r. row_internal_session_id r = new_sid) (row # R)"
      using R(3) by (simp add: row_def)
    from 1 2 3 show ?thesis by blast
  qed
qed

lemma add_internal_session_frame:
  "\<exists>E. fst (add_internal_session now db eid aid) = db\<lparr>external_sessions := E\<rparr>"
proof (cases "external_get_by_id db eid")
  case None
  then have "fst (add_internal_session now db eid aid) = db\<lparr>external_sessions := external_sessions db\<rparr>"
    by (simp add: add_internal_session_def)
  then show ?thesis by blast
next
  case (Some e)
  show ?thesis
  proof (cases "truthy (id_E (add_internal_session_E e aid))")
    case True
    with Some show ?thesis by (simp add: add_internal_session_def external_update_def) blast
  next
    case False
    with Some have "fst (add_internal_session now db eid aid) = db\<lparr>external_sessions := external_sessions db\<rparr>"
      by (simp add: add_internal_session_def external_update_def)
    then show ?thesis by blast
  qed
qed

lemma find_map_key:
  assumes "\<And>x. P (f x) = P x"
  shows "find P (map f xs) = map_option f (find P xs)"
  by (induction xs) (simp_all add: assms)

lemma session_update_then_get:
  assumes i: "id_S s = Some i" "i \<noteq> 0"
    and f: "find (\<lambda>r. srow_id r = i) (internal_sessions db) = Some r0"
    and r0: "srow_external_session_id r0 = external_session_id s"
      "srow_agno_session_id r0 = agno_session_id s"
      "created_at_S s = Some (srow_created_at r0)"
  shows "session_get_by_id (fst (session_update db s)) i = Some s"
proof -
  define g where "g = (\<lambda>r::session_row. if srow_external_session_id r = external_session_id s \<and>
                       (if truthy (id_S s) then Some (srow_id r) \<noteq> id_S s else True)
                    then r\<lparr>srow_is_current := False\<rparr> else r)"
  define h where "h = (\<lambda>r::session_row. if Some (srow_id r) = id_S s
                             then r\<lparr>srow_state_data := session_state_S s,
                                    srow_conversation_history := conversation_history_S s,
                                    srow_is_current := is_current s,
                                    srow_checkpoint_count := checkpoint_count s\<rparr>
                             else r)"
  have idg: "\<And>r. (srow_id (g r) = i) = (srow_id r = i)" by (simp add: g_def)
  have idh: "\<And>r. (srow_id (h r) = i) = (srow_id r = i)" by (simp add: h_def)
  have idhg: "\<And>r. (srow_id ((h \<circ> g) r) = i) = (srow_id r = i)" by (simp add: idh idg)
  have t: "truthy (id_S s)" using i by (simp add: truthy_def)
  have rows: "internal_sessions (fst (session_update db s)) =
      (if is_current s then map (h \<circ> g) (internal_sessions db) else map h (internal_sessions db))"
    using t by (simp add: session_update_def Let_def mark_all_not_current_def g_def h_def)
  have i0: "srow_id r0 = i" using f by (auto simp add: find_Some_iff)
  have hg: "row_to_session (h (g r0)) = s" "row_to_session (h r0) = s"
    using i i0 r0 by (cases s; simp add: row_to_session_def h_def g_def truthy_def)+
  show ?thesis
    unfolding session_get_by_id_def rows
    using f hg
    by (simp add: find_map_key [of "\<lambda>r. srow_id r = i" h, OF idh]
          find_map_key [of "\<lambda>r. srow_id r = i" "h \<circ> g", OF idhg])
qed

lemma mark_frame [simp]:
  "checkpoints_seq (mark_all_not_current db ext ex) = checkpoints_seq db"
  "external_sessions (mark_all_not_current db ext ex) = external_sessions db"
  by (simp_all add: mark_all_not_current_def)

lemma get_by_id_row:
  assumes "checkpoint_get_by_id db cid = Some C"
  shows "\<exists>rC \<in> set (checkpoints db). C = row_to_checkpoint rC \<and> row_id rC = cid \<and>
           find (\<lambda>r. row_id r = cid) (checkpoints db) = Some rC"
proof -
  from assms obtain rC where f: "find (\<lambda>r. row_id r = cid) (checkpoints db) = Some rC"
    and c: "C = row_to_checkpoint rC"
    by (auto simp add: checkpoint_get_by_id_def)
  from f obtain i where "i < length (checkpoints db)" "checkpoints db ! i = rC" "row_id rC = cid"
    unfolding find_Some_iff by auto
  with f c show ?thesis using nth_mem by blast
qed

lemma from_checkpoint_result:
  assumes ok: "store_ok db"
    and g: "checkpoint_get_by_id db cid = Some C"
    and r: "from_checkpoint now now_reg aid True db cid ext None = (db', Inr agent)"
  shows "\<exists>E R rowN src tC.
      internal_session_id C = Some src \<and> created_at_C C = Some tC \<and>
      rowN = \<lparr>srow_id = internal_sessions_seq db + 1,
               srow_external_session_id = ext,
               srow_agno_session_id = aid,
               srow_state_data = session_state_C C,
               srow_conversation_history = [],
               srow_created_at = now,
               srow_is_current = True,
               srow_checkpoint_count = 0\<rparr> \<and>
      internal_session agent =
        \<lparr>id_S = Some (internal_sessions_seq db + 1), external_session_id = ext,
         agno_session_id = aid, session_state_S = session_state_C C,
         conversation_history_S = conversation_history_C C, created_at_S = Some now,
         is_current = True, checkpoint_count = 0\<rparr> \<and>
      db' = fst (session_update
        ((mark_all_not_current db ext None)
           \<lparr>internal_sessions := internal_sessions (mark_all_not_current db ext None) @ [rowN],
            internal_sessions_seq := internal_sessions_seq db + 1,
            external_sessions := E,
            checkpoints := checkpoints db @ R,
            checkpoints_seq := checkpoints_seq db + int (length R)\<rparr>)
        (internal_session agent)) \<and>
      map row_checkpoint_data R =
        map (copy_for (internal_sessions_seq db + 1))
          (filter (\<lambda>cp. created_not_after cp C) (get_by_internal_session db src False)) \<and>
      list_all (\<lambda>r. row_internal_session_id r = internal_sessions_seq db + 1) R"
proof -
  define new where "new = internal_sessions_seq db + 1"
  define dbA where "dbA = mark_all_not_current db ext None"
  define rowN where "rowN = \<lparr>srow_id = new,
               srow_external_session_id = ext,
               srow_agno_session_id = aid,
               srow_state_data = session_state_C C,
               srow_conversation_history = [],
               srow_created_at = now,
               srow_is_current = True,
               srow_checkpoint_count = 0\<rparr>"
  define db1 where "db1 = dbA\<lparr>internal_sessions := internal_sessions dbA @ [rowN],
                            internal_sessions_seq := new\<rparr>"
  define created where "created = \<lparr>id_S = Some new, external_session_id = ext,
         agno_session_id = aid, session_state_S = session_state_C C,
         conversation_history_S = [], created_at_S = Some now,
         is_current = True, checkpoint_count = 0\<rparr>"
  define s where "s = created\<lparr>session_state_S := session_state_C C,
                               conversation_history_S := conversation_history_C C\<rparr>"
  have A: "create_internal_session now db True ext aid (Some (session_state_C C)) =
      (if aid \<in> srow_agno_session_id ` set (internal_sessions dbA)
       then (dbA, Inl (IntegrityError
                 ''UNIQUE constraint failed: internal_sessions.agno_session_id''))
       else (db1, Inr created))"
    by (simp add: create_internal_session_def session_create_def Let_def dbA_def db1_def
          rowN_def created_def new_def)
  have nz: "new \<noteq> 0" using ok by (simp add: store_ok_def new_def)
  from get_by_id_row [OF g] obtain rC where rC: "rC \<in> set (checkpoints db)"
    "C = row_to_checkpoint rC" by blast
  from ok rC(1) have "created_at_C (row_checkpoint_data rC) = Some (row_created_at rC)"
    "internal_session_id (row_checkpoint_data rC) = Some (row_internal_session_id rC)"
    by (auto simp add: store_ok_def list_all_iff)
  with rC(2) have C1: "internal_session_id C = Some (row_internal_session_id rC)"
    and C2: "created_at_C C = Some (row_created_at rC)"
    by (simp_all add: row_to_checkpoint_def)
  define src where "src = row_internal_session_id rC"
  obtain E where E: "fst (add_internal_session now_reg db1 ext aid) = db1\<lparr>external_sessions := E\<rparr>"
    using add_internal_session_frame by blast
  define db2 where "db2 = db1\<lparr>external_sessions := E\<rparr>"
  from copy_checkpoints_rows [of now db2 C new "get_by_internal_session db2 src False"]
  obtain R where R: "copy_checkpoints now db2 C new (get_by_internal_session db2 src False) =
          (db2\<lparr>checkpoints := checkpoints db2 @ R,
               checkpoints_seq := checkpoints_seq db2 + int (length R)\<rparr>, None)"
    "map row_checkpoint_data R =
          map (copy_for new) (filter (\<lambda>cp. created_not_after cp C)
             (get_by_internal_session db2 src False))"
    "list_all (\<lambda>r. row_internal_session_id r = new) R" by blast
  define db3 where "db3 = db2\<lparr>checkpoints := checkpoints db2 @ R,
               checkpoints_seq := checkpoints_seq db2 + int (length R)\<rparr>"
  define agentX where "agentX = \<lparr>agent_external_session_id = ext,
                                agent_agno_session_id = aid,
                                session_state = Some (session_state_C C),
                                state_shared = False,
                                auto_checkpoint = True,
                                has_internal_session_repo = True,
                                has_checkpoint_repo = True,
                                internal_session = s,
                                tool_was_called = False,
                                last_tool_called = None,
                                restored_from_checkpoint = True,
                                restored_history = conversation_history_C C\<rparr>"
  have ids: "id_S s = Some new" by (simp add: s_def created_def)
  have idc: "id_S created = Some new" by (simp add: created_def)
  have notin: "aid \<notin> srow_agno_session_id ` set (internal_sessions dbA)"
  proof
    assume "aid \<in> srow_agno_session_id ` set (internal_sessions dbA)"
    with A g have "\<exists>e d. from_checkpoint now now_reg aid True db cid ext None = (d, Inl e)"
      by (simp add: from_checkpoint_def)
    with r show False by auto
  qed
  have res: "from_checkpoint now now_reg aid True db cid ext None =
      (save_internal_session db3 agentX, Inr agentX)"
    using notin nz
    by (simp add: from_checkpoint_def g A E db2_def [symmetric] s_def [symmetric] ids idc C1
          src_def [symmetric] R(1) db3_def [symmetric] agentX_def [symmetric])
  with r have d': "db' = save_internal_session db3 agentX" and ag: "agent = agentX" by auto
  have sv: "save_internal_session db3 agentX = fst (session_update db3 s)"
    using nz by (simp add: save_internal_session_def agentX_def ids truthy_def)
  have cps: "get_by_internal_session db2 src False = get_by_internal_session db src False"
    by (simp add: get_by_internal_session_def db2_def db1_def dbA_def)
  have db3_eq: "db3 = (mark_all_not_current db ext None)
           \<lparr>internal_sessions := internal_sessions (mark_all_not_current db ext None) @ [rowN],
            internal_sessions_seq := internal_sessions_seq db + 1,
            external_sessions := E,
            checkpoints := checkpoints db @ R,
            checkpoints_seq := checkpoints_seq db + int (length R)\<rparr>"
    by (simp add: db3_def db2_def db1_def dbA_def new_def)
  have is_eq: "internal_session agent =
        \<lparr>id_S = Some (internal_sessions_seq db + 1), external_session_id = ext,
         agno_session_id = aid, session_state_S = session_state_C C,
         conversation_history_S = conversation_history_C C, created_at_S = Some now,
         is_current = True, checkpoint_count = 0\<rparr>"
    by (simp add: ag agentX_def s_def created_def new_def)
  have "internal_session agent = s" by (simp add: ag agentX_def)
  with d' sv db3_eq have d2: "db' = fst (session_update
        ((mark_all_not_current db ext None)
           \<lparr>internal_sessions := internal_sessions (mark_all_not_current db ext None) @ [rowN],
            internal_sessions_seq := internal_sessions_seq db + 1,
            external_sessions := E,
            checkpoints := checkpoints db @ R,
            checkpoints_seq := checkpoints_seq db + int (length R)\<rparr>)
        (internal_session agent))" by simp
  from C1 C2 is_eq d2 R(2,3) show ?thesis
    unfolding cps new_def [symmetric] src_def [symmetric]
    by (intro exI [of _ E] exI [of _ R] exI [of _ rowN] exI [of _ src]
          exI [of _ "row_created_at rC"]) (simp add: rowN_def new_def)
qed


lemma find_append:
  "find P (xs @ ys) = (case find P xs of None \<Rightarrow> find P ys | Some x \<Rightarrow> Some x)"
  by (induction xs) simp_all

lemma created_not_after_row:
  assumes "created_at_C (row_checkpoint_data r) = Some (row_created_at r)"
    "created_at_C C = Some tC"
  shows "created_not_after (row_to_checkpoint r) C \<longleftrightarrow> row_created_at r \<le> tC"
  using assms by (simp add: created_not_after_def row_to_checkpoint_def)

lemma copy_for_row: "copy_for n (row_to_checkpoint r) = copy_for n (row_checkpoint_data r)"
  by (simp add: copy_for_def row_to_checkpoint_def)

lemma copies_of_source:
  assumes ok: "store_ok db" and tC: "created_at_C C = Some tC"
  shows "map (copy_for n)
           (filter (\<lambda>cp. created_not_after cp C) (get_by_internal_session db src False)) =
         map (copy_for n \<circ> row_checkpoint_data)
           (newest_first (filter (\<lambda>r. row_internal_session_id r = src \<and> row_created_at r \<le> tC)
              (checkpoints db)))"
proof -
  let ?ys = "filter (\<lambda>r. row_internal_session_id r = src) (checkpoints db)"
  have g: "get_by_internal_session db src False = map row_to_checkpoint (newest_first ?ys)"
    by (simp add: get_by_internal_session_def)
  have "filter ((\<lambda>cp. created_not_after cp C) \<circ> row_to_checkpoint) (newest_first ?ys) =
        filter (\<lambda>r. row_created_at r \<le> tC) (newest_first ?ys)"
  proof (rule filter_cong [OF refl])
    fix r assume "r \<in> set (newest_first ?ys)"
    then have "r \<in> set (checkpoints db)" by simp
    with ok have "created_at_C (row_checkpoint_data r) = Some (row_created_at r)"
      by (auto simp add: store_ok_def list_all_iff)
    from created_not_after_row [OF this tC]
    show "((\<lambda>cp. created_not_after cp C) \<circ> row_to_checkpoint) r = (row_created_at r \<le> tC)"
      by simp
  qed
  also have "\<dots> = newest_first (filter (\<lambda>r. row_created_at r \<le> tC) ?ys)"
    unfolding newest_first_def by (rule filter_sort)
  also have "filter (\<lambda>r. row_created_at r \<le> tC) ?ys =
      filter (\<lambda>r. row_internal_session_id r = src \<and> row_created_at r \<le> tC) (checkpoints db)"
    by simp
  finally have f: "filter ((\<lambda>cp. created_not_after cp C) \<circ> row_to_checkpoint) (newest_first ?ys) =
      newest_first (filter (\<lambda>r. row_internal_session_id r = src \<and> row_created_at r \<le> tC)
              (checkpoints db))" .
  show ?thesis
    unfolding g filter_map f by (simp add: copy_for_row comp_def)
qed



lemma example_fork_store_ok: "store_ok example_fork_store"
  by (simp add: store_ok_def sessions_keyed_def checkpoints_keyed_def example_fork_store_def
        empty_database_def example_session_def example_checkpoint_def session_create_def
        checkpoint_create_def mark_all_not_current_def Let_def)

lemma example_fork_get:
  "checkpoint_get_by_id example_fork_store 2 = Some ((example_checkpoint 1 ''B'' False 20)\<lparr>id_C := Some 2\<rparr>)"
  by (simp add: checkpoint_get_by_id_def row_to_checkpoint_def example_fork_store_def
        empty_database_def example_session_def example_checkpoint_def session_create_def
        checkpoint_create_def mark_all_not_current_def Let_def)

lemma example_fork_runs:
  "\<exists>db' agent. from_checkpoint 40 41 ''agno_b'' True example_fork_store 2 1 None = (db', Inr agent)"
  by (simp add: from_checkpoint_def create_internal_session_def add_internal_session_def
        external_get_by_id_def save_internal_session_def session_update_def truthy_def
        created_not_after_def get_by_internal_session_def newest_first_def
        checkpoint_get_by_id_def row_to_checkpoint_def example_fork_store_def
        empty_database_def example_session_def example_checkpoint_def session_create_def
        checkpoint_create_def mark_all_not_current_def Let_def)




end
